theory Spec2Isabelle
  imports Complex_Main "HOL-Library.Product_Lexorder" "HOL-Library.Multiset"
begin

section \<open>JavaScript library functions used by the cache\<close>

text \<open>
  JavaScript numbers are modelled as exact numbers: \<open>int\<close> where the program holds
  integers (line numbers, clock readings in milliseconds, hit counts) and \<open>real\<close> for
  the components of embeddings and for similarities, so rounding, overflow and \<open>NaN\<close>
  of floating-point arithmetic do not occur. Strings are \<open>string\<close>, lists of
  characters with codes below 256; the character \<open>CHR 0x0A\<close> is the line feed.
\<close>

text \<open>\<open>String.prototype.split\<close> with a one-character separator.\<close>

fun split_on :: "char \<Rightarrow> string \<Rightarrow> string list" where
  "split_on c [] = [[]]"
| "split_on c (x # xs) =
     (if x = c then [] # split_on c xs
      else (case split_on c xs of
              [] \<Rightarrow> [[x]]
            | l # ls \<Rightarrow> (x # l) # ls))"

text \<open>\<open>Array.prototype.join\<close>.\<close>

fun join_with :: "string \<Rightarrow> string list \<Rightarrow> string" where
  "join_with sep [] = []"
| "join_with sep [x] = x"
| "join_with sep (x # y # ys) = x @ sep @ join_with sep (y # ys)"

text \<open>
  \<open>Array.prototype.slice(start, end)\<close>: a negative index counts from the end of the
  array, and both indices are clamped to the array.
\<close>

definition slice_index :: "nat \<Rightarrow> int \<Rightarrow> nat" where
  "slice_index len i = (if i < 0 then nat (max 0 (int len + i)) else min (nat i) len)"

definition js_slice :: "'a list \<Rightarrow> int \<Rightarrow> int \<Rightarrow> 'a list" where
  "js_slice xs s e =
     (let from = slice_index (length xs) s; to = slice_index (length xs) e
      in take (to - from) (drop from xs))"

text \<open>
  \<open>String.prototype.substring(start, end)\<close>: negative indices are taken as 0, both are
  clamped to the length, and they are swapped when \<open>start > end\<close>.
\<close>

definition js_substring :: "string \<Rightarrow> int \<Rightarrow> int \<Rightarrow> string" where
  "js_substring s a b =
     (let a' = min (nat (max 0 a)) (length s); b' = min (nat (max 0 b)) (length s);
          from = min a' b'; to = max a' b'
      in take (to - from) (drop from s))"

text \<open>\<open>lines[i] || ''\<close>: an index outside the array reads \<open>undefined\<close>.\<close>

definition line_or_empty :: "string list \<Rightarrow> int \<Rightarrow> string" where
  "line_or_empty ls i = (if 0 \<le> i \<and> i < int (length ls) then ls ! nat i else [])"

text \<open>
  Numbers in template strings: decimal digits, with a sign for negative integers.
  \<open>digits_in b\<close> writes a natural number in a base \<open>b\<close> of at most 36, as
  \<open>Number.prototype.toString(b)\<close> does.
\<close>

definition digit_char :: "nat \<Rightarrow> char" where
  "digit_char d = ''0123456789abcdefghijklmnopqrstuvwxyz'' ! (d mod 36)"

fun digits_in :: "nat \<Rightarrow> nat \<Rightarrow> string" where
  "digits_in b n =
     (if b < 2 \<or> n < b then [digit_char n] else digits_in b (n div b) @ [digit_char (n mod b)])"

definition show_nat :: "nat \<Rightarrow> string" where
  "show_nat n = digits_in 10 n"

definition show_int :: "int \<Rightarrow> string" where
  "show_int i = (if i < 0 then CHR ''-'' # show_nat (nat (- i)) else show_nat (nat i))"

section \<open>Embedding service (src/lib/embedding-service.ts)\<close>

datatype error = ModelError | ConnectionError | SyntaxError

text \<open>
  \<open>generateEmbedding\<close>: the embedding model is outside the program; it is a parameter
  that either fails or returns a vector. A failure is caught and replaced by the zero
  vector of length 384.
\<close>

definition generateEmbedding :: "(string \<Rightarrow> error + real list) \<Rightarrow> string \<Rightarrow> real list" where
  "generateEmbedding model text =
     (case model text of
        Inr v \<Rightarrow> v
      | Inl _ \<Rightarrow> replicate 384 0)"

definition contextRadius :: int where
  "contextRadius = 5"

definition createCodeContext :: "string \<Rightarrow> int \<Rightarrow> int \<Rightarrow> string \<Rightarrow> string \<Rightarrow> string" where
  "createCodeContext fileContent cursorLine cursorColumn language framework =
     (let lines = split_on (CHR 0x0A) fileContent;
          startLine = max 0 (cursorLine - contextRadius);
          endLine = min (int (length lines)) (cursorLine + contextRadius);
          contextLines = js_slice lines startLine endLine;
          currentLine = line_or_empty lines cursorLine
      in join_with [CHR 0x0A]
           ([''Language: '' @ language,
             ''Framework: '' @ framework,
             ''Context:''] @
            contextLines @
            [''Cursor at line '' @ show_int cursorLine @ '', column '' @ show_int cursorColumn,
             ''Current line: '' @ currentLine]))"

record ChatMessage =
  role :: string
  content :: string

definition createChatContext :: "string \<Rightarrow> string \<Rightarrow> ChatMessage list \<Rightarrow> string" where
  "createChatContext message mode history =
     (let recentHistory = js_slice history (-3) (int (length history))
      in join_with [CHR 0x0A]
           ([''Mode: '' @ mode,
             ''Recent conversation:''] @
            map (\<lambda>msg. role msg @ '': '' @ js_substring (content msg) 0 200) recentHistory @
            [''Current message: '' @ message]))"

text \<open>
  The loop of \<open>calculateSimilarity\<close> over the indices of two arrays of equal length,
  with the three accumulators \<open>dotProduct\<close>, \<open>norm1\<close> and \<open>norm2\<close>.
\<close>

fun sim_loop :: "real list \<Rightarrow> real list \<Rightarrow> real \<times> real \<times> real \<Rightarrow> real \<times> real \<times> real" where
  "sim_loop (x # xs) (y # ys) (dotProduct, norm1, norm2) =
     sim_loop xs ys (dotProduct + x * y, norm1 + x * x, norm2 + y * y)"
| "sim_loop _ _ acc = acc"

definition calculateSimilarity :: "real list \<Rightarrow> real list \<Rightarrow> real" where
  "calculateSimilarity embedding1 embedding2 =
     (if length embedding1 \<noteq> length embedding2 then 0
      else (case sim_loop embedding1 embedding2 (0, 0, 0) of
              (dotProduct, norm1, norm2) \<Rightarrow>
                (let magnitude = sqrt norm1 * sqrt norm2
                 in if magnitude = 0 then 0 else dotProduct / magnitude)))"


section \<open>The Redis store\<close>

text \<open>
  The cache entry of src/lib/semantic-cache.ts. The fields \<open>id\<close> and \<open>context\<close> are
  named \<open>entryId\<close> and \<open>entryContext\<close> here, and the fields of \<open>CodeContextInput\<close>
  that share a name with a field of \<open>CacheEntry\<close> carry the prefix \<open>input\<close>.
\<close>

record CacheEntry =
  entryId :: string
  entryContext :: string
  embedding :: "real list"
  suggestion :: string
  language :: string
  framework :: string
  timestamp :: int
  hitCount :: int

record CodeContextInput =
  fileContent :: string
  cursorLine :: int
  cursorColumn :: int
  inputLanguage :: string
  inputFramework :: string
  suggestionType :: string

text \<open>
  A stored value is the JSON text of a cache entry, as \<open>JSON.stringify\<close> writes it,
  or a text that is not empty and that \<open>JSON.parse\<close> rejects.
\<close>

datatype redis_value = Serialized CacheEntry | Unparsable

definition JSON_stringify :: "CacheEntry \<Rightarrow> redis_value" where
  "JSON_stringify e = Serialized e"

definition JSON_parse :: "redis_value \<Rightarrow> error + CacheEntry" where
  "JSON_parse v = (case v of Serialized e \<Rightarrow> Inr e | Unparsable \<Rightarrow> Inl SyntaxError)"

text \<open>
  The state the cache manager works on: whether the Redis server can be reached, the
  stored keys, each with its value and the time (in milliseconds) at which it expires,
  and the messages written with \<open>console.error\<close>. The connection does not change
  during a call, and one clock reading \<open>now\<close> serves a whole call. The order of the
  list is the order in which \<open>KEYS\<close> reports the keys, which Redis leaves open; a key
  that is written moves to the end.
\<close>

record server =
  connected :: bool
  store :: "(string \<times> redis_value \<times> int) list"
  console :: "string list"

text \<open>
  The pattern matching of the \<open>KEYS\<close> command: \<open>*\<close> stands for any sequence of
  characters, \<open>?\<close> for any one character, a backslash makes the next character
  literal. Character classes in brackets are not modelled.
\<close>

fun glob_match :: "string \<Rightarrow> string \<Rightarrow> bool" where
  "glob_match [] s = (s = [])"
| "glob_match (p # ps) s =
     (if p = CHR ''*'' then
        (glob_match ps s \<or> (case s of [] \<Rightarrow> False | _ # t \<Rightarrow> glob_match (p # ps) t))
      else if p = CHR ''?'' then
        (case s of [] \<Rightarrow> False | _ # t \<Rightarrow> glob_match ps t)
      else if p = CHR 0x5C then
        (case ps of
           [] \<Rightarrow> (case s of [] \<Rightarrow> False | c # t \<Rightarrow> c = p \<and> t = [])
         | q # qs \<Rightarrow> (case s of [] \<Rightarrow> False | c # t \<Rightarrow> c = q \<and> glob_match qs t))
      else (case s of [] \<Rightarrow> False | c # t \<Rightarrow> c = p \<and> glob_match ps t))"

text \<open>A key is alive before its time of expiry.\<close>

definition live :: "int \<Rightarrow> string \<times> redis_value \<times> int \<Rightarrow> bool" where
  "live now kv = (now < snd (snd kv))"

definition getRedisClient :: "server \<Rightarrow> error + unit" where
  "getRedisClient s = (if connected s then Inr () else Inl ConnectionError)"

text \<open>
  What a connected client is told: the keys that are alive and match a pattern, in the
  order of the store, and the value of a key that is alive.
\<close>

definition keys_matching :: "int \<Rightarrow> string \<Rightarrow> server \<Rightarrow> string list" where
  "keys_matching now pattern s =
     map fst (filter (\<lambda>kv. live now kv \<and> glob_match pattern (fst kv)) (store s))"

definition value_at :: "int \<Rightarrow> string \<Rightarrow> server \<Rightarrow> redis_value option" where
  "value_at now key s =
     map_option (\<lambda>kv. fst (snd kv)) (find (\<lambda>kv. fst kv = key \<and> live now kv) (store s))"

definition redis_keys :: "int \<Rightarrow> string \<Rightarrow> server \<Rightarrow> error + string list" where
  "redis_keys now pattern s =
     (if connected s then Inr (keys_matching now pattern s) else Inl ConnectionError)"

definition redis_get :: "int \<Rightarrow> string \<Rightarrow> server \<Rightarrow> error + redis_value option" where
  "redis_get now key s =
     (if connected s then Inr (value_at now key s) else Inl ConnectionError)"

text \<open>\<open>SETEX key seconds value\<close>: the key expires \<open>seconds\<close> after the command.\<close>

definition redis_setEx :: "int \<Rightarrow> string \<Rightarrow> int \<Rightarrow> redis_value \<Rightarrow> server \<Rightarrow> error + server" where
  "redis_setEx now key seconds v s =
     (if connected s
      then Inr (s\<lparr>store := filter (\<lambda>kv. fst kv \<noteq> key) (store s) @ [(key, v, now + seconds * 1000)]\<rparr>)
      else Inl ConnectionError)"

definition redis_del :: "string list \<Rightarrow> server \<Rightarrow> error + server" where
  "redis_del keys s =
     (if connected s
      then Inr (s\<lparr>store := filter (\<lambda>kv. fst kv \<notin> set keys) (store s)\<rparr>)
      else Inl ConnectionError)"

definition console_error :: "string \<Rightarrow> server \<Rightarrow> server" where
  "console_error msg s = s\<lparr>console := console s @ [msg]\<rparr>"

section \<open>The semantic cache (src/lib/semantic-cache.ts)\<close>

definition CACHE_PREFIX :: string where
  "CACHE_PREFIX = ''code_suggestion:''"

definition SIMILARITY_THRESHOLD :: real where
  "SIMILARITY_THRESHOLD = 85 / 100"

definition MAX_CACHE_SIZE :: int where
  "MAX_CACHE_SIZE = 1000"

definition CACHE_TTL :: int where
  "CACHE_TTL = 7 * 24 * 60 * 60"

text \<open>
  The context of a request, built by the same conditional at the head of
  \<open>getCachedSuggestion\<close> and of \<open>cacheSuggestion\<close>.
\<close>

definition buildContext :: "CodeContextInput \<Rightarrow> string" where
  "buildContext input =
     (if inputLanguage input = ''Chat''
      then createChatContext (fileContent input) (inputFramework input) []
      else createCodeContext (fileContent input) (cursorLine input) (cursorColumn input)
             (inputLanguage input) (inputFramework input))"

type_synonym best_match = "string \<times> real \<times> CacheEntry"

text \<open>
  The body of the loop in \<open>getCachedSuggestion\<close> for an entry that was parsed:
  \<open>bestMatch\<close> is replaced when the similarity exceeds the threshold and the
  similarity of the best match so far, if there is one.
\<close>

definition update_best :: "real list \<Rightarrow> string \<Rightarrow> CacheEntry \<Rightarrow> best_match option \<Rightarrow> best_match option" where
  "update_best q key entry bestMatch =
     (let similarity = calculateSimilarity q (embedding entry)
      in if similarity > SIMILARITY_THRESHOLD \<and>
            (case bestMatch of None \<Rightarrow> True | Some (_, best, _) \<Rightarrow> similarity > best)
         then Some (key, similarity, entry)
         else bestMatch)"

text \<open>
  The loop over the keys. Its state is \<open>bestMatch\<close> and the number of entries that
  could not be parsed (each is reported on the console).
\<close>

fun lookup_loop ::
  "int \<Rightarrow> server \<Rightarrow> real list \<Rightarrow> string list \<Rightarrow> best_match option \<times> nat
     \<Rightarrow> error + (best_match option \<times> nat)" where
  "lookup_loop now s q [] acc = Inr acc"
| "lookup_loop now s q (key # keys) (bestMatch, bad) =
     (case redis_get now key s of
        Inl e \<Rightarrow> Inl e
      | Inr None \<Rightarrow> lookup_loop now s q keys (bestMatch, bad)
      | Inr (Some cachedData) \<Rightarrow>
          (case JSON_parse cachedData of
             Inl e \<Rightarrow> lookup_loop now s q keys (bestMatch, Suc bad)
           | Inr entry \<Rightarrow> lookup_loop now s q keys (update_best q key entry bestMatch, bad)))"

definition log_parse_errors :: "nat \<Rightarrow> server \<Rightarrow> server" where
  "log_parse_errors n s = s\<lparr>console := console s @ replicate n ''Error parsing cache entry:''\<rparr>"

definition getCachedSuggestion_try ::
  "int \<Rightarrow> (string \<Rightarrow> error + real list) \<Rightarrow> CodeContextInput \<Rightarrow> server
     \<Rightarrow> error + (string option \<times> server)" where
  "getCachedSuggestion_try now model input s =
     (case getRedisClient s of
        Inl e \<Rightarrow> Inl e
      | Inr _ \<Rightarrow>
          (let context = buildContext input;
               queryEmbedding = generateEmbedding model context;
               pattern = CACHE_PREFIX @ inputLanguage input @ '':'' @ inputFramework input @ '':*''
           in case redis_keys now pattern s of
                Inl e \<Rightarrow> Inl e
              | Inr keys \<Rightarrow>
                  if length keys = 0 then Inr (None, s)
                  else (case lookup_loop now s queryEmbedding keys (None, 0) of
                          Inl e \<Rightarrow> Inl e
                        | Inr (None, bad) \<Rightarrow> Inr (None, log_parse_errors bad s)
                        | Inr (Some (key, similarity, entry), bad) \<Rightarrow>
                            (let entry' = entry\<lparr>hitCount := hitCount entry + 1, timestamp := now\<rparr>
                             in case redis_setEx now key CACHE_TTL (JSON_stringify entry')
                                       (log_parse_errors bad s) of
                                  Inl e \<Rightarrow> Inl e
                                | Inr s' \<Rightarrow> Inr (Some (suggestion entry'), s')))))"

definition getCachedSuggestion ::
  "int \<Rightarrow> (string \<Rightarrow> error + real list) \<Rightarrow> CodeContextInput \<Rightarrow> server
     \<Rightarrow> string option \<times> server" where
  "getCachedSuggestion now model input s =
     (case getCachedSuggestion_try now model input s of
        Inr r \<Rightarrow> r
      | Inl e \<Rightarrow> (None, console_error ''Error in semantic cache lookup:'' s))"


subsection \<open>Writing an entry\<close>

text \<open>
  \<open>ToInt32\<close>: the result of the bitwise operators \<open><<\<close> and \<open>&\<close> is the operand
  reduced modulo \<open>2^32\<close> into the signed 32-bit range.
\<close>

definition to_int32 :: "int \<Rightarrow> int" where
  "to_int32 x = (x + 2147483648) mod 4294967296 - 2147483648"

definition hash_step :: "int \<Rightarrow> char \<Rightarrow> int" where
  "hash_step hash c = to_int32 ((to_int32 (hash * 32) - hash) + int (of_char c))"

definition simpleHash :: "string \<Rightarrow> string" where
  "simpleHash str = digits_in 36 (nat \<bar>foldl hash_step 0 str\<bar>)"

definition generateCacheId :: "int \<Rightarrow> CodeContextInput \<Rightarrow> string" where
  "generateCacheId now input =
     (let hash = simpleHash
            (js_substring (fileContent input) (max 0 (cursorLine input - 2)) (cursorLine input + 3)
               @ suggestionType input)
      in show_int now @ ''_'' @ hash)"

text \<open>\<open>String.prototype.trim\<close> on the white space of ASCII.\<close>

definition is_space :: "char \<Rightarrow> bool" where
  "is_space c = (c \<in> {CHR 0x09, CHR 0x0A, CHR 0x0B, CHR 0x0C, CHR 0x0D, CHR '' ''})"

definition trim :: "string \<Rightarrow> string" where
  "trim s = rev (dropWhile is_space (rev (dropWhile is_space s)))"

text \<open>
  The eviction sweep. An item of the array \<open>entries\<close> is the key with the entry's
  timestamp and hit count; \<open>x || 0\<close> on a number \<open>x\<close> is \<open>x\<close>.
\<close>

type_synonym sweep_item = "string \<times> int \<times> int"

definition or_zero :: "int \<Rightarrow> int" where
  "or_zero x = (if x = 0 then 0 else x)"

fun collect_loop ::
  "int \<Rightarrow> string list \<Rightarrow> server \<times> sweep_item list \<Rightarrow> error + (server \<times> sweep_item list)" where
  "collect_loop now [] acc = Inr acc"
| "collect_loop now (key # keys) (s, entries) =
     (case redis_get now key s of
        Inl e \<Rightarrow> Inl e
      | Inr None \<Rightarrow> collect_loop now keys (s, entries)
      | Inr (Some data) \<Rightarrow>
          (case JSON_parse data of
             Inr entry \<Rightarrow>
               collect_loop now keys
                 (s, entries @ [(key, or_zero (timestamp entry), or_zero (hitCount entry))])
           | Inl _ \<Rightarrow>
               (case redis_del [key] s of
                  Inl e \<Rightarrow> Inl e
                | Inr s' \<Rightarrow> collect_loop now keys (s', entries))))"

text \<open>The comparator passed to \<open>entries.sort\<close>: hit count first, then timestamp.\<close>

fun compare_items :: "sweep_item \<Rightarrow> sweep_item \<Rightarrow> int" where
  "compare_items (ka, ta, ha) (kb, tb, hb) = (if ha \<noteq> hb then ha - hb else ta - tb)"

text \<open>\<open>Array.prototype.sort\<close> with a comparator is a stable sort.\<close>

fun insert_by :: "('a \<Rightarrow> 'a \<Rightarrow> int) \<Rightarrow> 'a \<Rightarrow> 'a list \<Rightarrow> 'a list" where
  "insert_by cmp x [] = [x]"
| "insert_by cmp x (y # ys) = (if cmp x y \<le> 0 then x # y # ys else y # insert_by cmp x ys)"

definition sort_by :: "('a \<Rightarrow> 'a \<Rightarrow> int) \<Rightarrow> 'a list \<Rightarrow> 'a list" where
  "sort_by cmp xs = foldr (insert_by cmp) xs []"

definition cleanupOldEntries_try :: "int \<Rightarrow> server \<Rightarrow> error + server" where
  "cleanupOldEntries_try now s =
     (case redis_keys now (CACHE_PREFIX @ ''*'') s of
        Inl e \<Rightarrow> Inl e
      | Inr allKeys \<Rightarrow>
          if int (length allKeys) \<le> MAX_CACHE_SIZE then Inr s
          else (case collect_loop now allKeys (s, []) of
                  Inl e \<Rightarrow> Inl e
                | Inr (s1, entries) \<Rightarrow>
                    (let sorted = sort_by compare_items entries;
                         toDelete = js_slice sorted 0 (int (length sorted) - MAX_CACHE_SIZE + 100)
                     in if length toDelete > 0 then redis_del (map fst toDelete) s1
                        else Inr s1)))"

definition cleanupOldEntries :: "int \<Rightarrow> server \<Rightarrow> server" where
  "cleanupOldEntries now s =
     (case cleanupOldEntries_try now s of
        Inr s' \<Rightarrow> s'
      | Inl e \<Rightarrow> console_error ''Error during cache cleanup:'' s)"

definition cacheSuggestion_try ::
  "int \<Rightarrow> (string \<Rightarrow> error + real list) \<Rightarrow> CodeContextInput \<Rightarrow> string \<Rightarrow> server
     \<Rightarrow> error + server" where
  "cacheSuggestion_try now model input sugg s =
     (case getRedisClient s of
        Inl e \<Rightarrow> Inl e
      | Inr _ \<Rightarrow>
          (let ctx = buildContext input;
               emb = generateEmbedding model ctx;
               entry = \<lparr>entryId = generateCacheId now input,
                        entryContext = ctx,
                        embedding = emb,
                        suggestion = trim sugg,
                        language = inputLanguage input,
                        framework = inputFramework input,
                        timestamp = now,
                        hitCount = 0\<rparr>;
               key = CACHE_PREFIX @ inputLanguage input @ '':'' @ inputFramework input @ '':''
                       @ entryId entry
           in case redis_setEx now key CACHE_TTL (JSON_stringify entry) s of
                Inl e \<Rightarrow> Inl e
              | Inr s' \<Rightarrow> Inr (cleanupOldEntries now s')))"

definition cacheSuggestion ::
  "int \<Rightarrow> (string \<Rightarrow> error + real list) \<Rightarrow> CodeContextInput \<Rightarrow> string \<Rightarrow> server \<Rightarrow> server" where
  "cacheSuggestion now model input sugg s =
     (case cacheSuggestion_try now model input sugg s of
        Inr s' \<Rightarrow> s'
      | Inl e \<Rightarrow> console_error ''Error caching suggestion:'' s)"


section \<open>The request handlers\<close>

subsection \<open>The code route (src/app/api/code-suggestion/stream/route.ts)\<close>

text \<open>
  The body of a code request after \<open>request.json()\<close>. The two strings the handler
  tests for presence may be missing.
\<close>

record CodeRequest =
  body_fileContent :: "string option"
  body_cursorLine :: int
  body_cursorColumn :: int
  body_suggestionType :: "string option"
  body_fileName :: "string option"

text \<open>A missing string and the empty string are falsy.\<close>

definition truthy :: "string option \<Rightarrow> bool" where
  "truthy v = (case v of None \<Rightarrow> False | Some t \<Rightarrow> t \<noteq> [])"

definition or_default :: "string option \<Rightarrow> string \<Rightarrow> string" where
  "or_default v d = (case v of None \<Rightarrow> d | Some t \<Rightarrow> if t = [] then d else t)"

fun str_includes :: "string \<Rightarrow> string \<Rightarrow> bool" where
  "str_includes [] sub = (sub = [])"
| "str_includes (c # cs) sub = (take (length sub) (c # cs) = sub \<or> str_includes cs sub)"

definition startsWith :: "string \<Rightarrow> string \<Rightarrow> bool" where
  "startsWith s p = (take (length p) s = p)"

text \<open>
  \<open>toLowerCase\<close> on the letters of ASCII, and the table of file extensions of
  \<open>detectLanguage\<close>, read for the extensions it lists.
\<close>

definition toLowerCase :: "string \<Rightarrow> string" where
  "toLowerCase s =
     map (\<lambda>c. let n = (of_char c :: nat) in if 65 \<le> n \<and> n \<le> 90 then char_of (n + 32) else c) s"

definition extMap :: "(string \<times> string) list" where
  "extMap = [(''ts'', ''TypeScript''), (''tsx'', ''TypeScript''), (''js'', ''JavaScript''),
             (''jsx'', ''JavaScript''), (''py'', ''Python''), (''java'', ''Java''),
             (''go'', ''Go''), (''rs'', ''Rust''), (''php'', ''PHP'')]"

definition detectLanguage :: "string \<Rightarrow> string option \<Rightarrow> string" where
  "detectLanguage code fileName =
     (case (if truthy fileName
            then map_of extMap (toLowerCase (last (split_on (CHR ''.'') (or_default fileName []))))
            else None) of
        Some lang \<Rightarrow> lang
      | None \<Rightarrow>
          if str_includes code ''interface '' \<or> str_includes code '': string'' then ''TypeScript''
          else if str_includes code ''import React'' \<or> str_includes code ''useState'' then ''JavaScript''
          else if str_includes code ''def '' \<or> str_includes code ''import '' then ''Python''
          else if str_includes code ''func '' \<or> str_includes code ''package '' then ''Go''
          else ''JavaScript'')"

definition detectFramework :: "string \<Rightarrow> string" where
  "detectFramework code =
     (if str_includes code ''import React'' \<or> str_includes code ''useState'' then ''React''
      else if str_includes code ''import Vue'' \<or> str_includes code ''<template>'' then ''Vue''
      else if str_includes code ''@angular/'' \<or> str_includes code ''@Component'' then ''Angular''
      else if str_includes code ''next/'' \<or> str_includes code ''getServerSideProps'' then ''Next.js''
      else ''None'')"

text \<open>
  What a request does besides answering: the calls into the cache manager and the
  request to the generation backend, in the order they are made.
\<close>

datatype effect = CacheLookup | Generation | CacheWrite

text \<open>
  An event of the answer stream carries a chunk of text or the final marker, each with
  the flag \<open>cached\<close>. A response is a JSON document with its status, or a stream that
  is closed after its events, or one that is put in error after them.
\<close>

datatype sse_event = Chunk string bool | Done bool

datatype response =
    JsonResponse nat string
  | EventStream "sse_event list"
  | FailedStream "sse_event list"

text \<open>Dropping repeated import lines from the generated text before it is cached.\<close>

fun filter_imports :: "string list \<Rightarrow> string list \<Rightarrow> string list" where
  "filter_imports seenImports [] = []"
| "filter_imports seenImports (line # rest) =
     (let trimmedLine = trim line
      in if startsWith trimmedLine ''import '' then
           (if trimmedLine \<in> set seenImports then filter_imports seenImports rest
            else line # filter_imports (trimmedLine # seenImports) rest)
         else line # filter_imports seenImports rest)"

text \<open>
  The handler \<open>POST\<close>. The generation backend is outside the program: \<open>generate\<close>
  stands for the prompt built from the request, the request to the backend and the relay
  loop, and returns the chunks the loop sends to the client together with the failure
  that ended the stream, if any. \<open>body\<close> is the outcome of \<open>request.json()\<close>.
\<close>

definition POST ::
  "int \<Rightarrow> (string \<Rightarrow> error + real list) \<Rightarrow> (CodeRequest \<Rightarrow> string list \<times> error option)
     \<Rightarrow> error + CodeRequest \<Rightarrow> server \<Rightarrow> response \<times> server \<times> effect list" where
  "POST now model generate body s =
     (case body of
        Inl e \<Rightarrow> (JsonResponse 500 ''{\"error\":\"Streaming failed\"}'', s, [])
      | Inr req \<Rightarrow>
          if \<not> truthy (body_fileContent req) \<or> body_cursorLine req < 0 \<or>
             body_cursorColumn req < 0 \<or> \<not> truthy (body_suggestionType req)
          then (JsonResponse 400 ''{\"error\":\"Invalid input parameters\"}'', s, [])
          else
            (let code = or_default (body_fileContent req) [];
                 cacheInput = \<lparr>fileContent = code,
                               cursorLine = body_cursorLine req,
                               cursorColumn = body_cursorColumn req,
                               inputLanguage = detectLanguage code (body_fileName req),
                               inputFramework = detectFramework code,
                               suggestionType = or_default (body_suggestionType req) []\<rparr>
             in case getCachedSuggestion now model cacheInput s of
                  (cachedSuggestion, s1) \<Rightarrow>
                    if truthy cachedSuggestion
                    then (EventStream [Chunk (or_default cachedSuggestion []) True, Done True],
                          s1, [CacheLookup])
                    else
                      (case generate req of
                         (chunks, Some e) \<Rightarrow>
                           (FailedStream (map (\<lambda>c. Chunk c False) chunks), s1,
                            [CacheLookup, Generation])
                       | (chunks, None) \<Rightarrow>
                           (let fullSuggestion = concat chunks;
                                events = map (\<lambda>c. Chunk c False) chunks @ [Done False]
                            in if trim fullSuggestion \<noteq> [] then
                                 (let lines = split_on (CHR 0x0A) (trim fullSuggestion);
                                      cleanedSuggestion =
                                        trim (join_with [CHR 0x0A] (filter_imports [] lines))
                                  in (EventStream events,
                                      cacheSuggestion now model cacheInput cleanedSuggestion s1,
                                      [CacheLookup, Generation, CacheWrite]))
                               else (EventStream events, s1, [CacheLookup, Generation])))))"

subsection \<open>The chat route\<close>

record ChatRequest =
  message :: string
  history :: "ChatMessage list"
  mode :: "string option"

text \<open>The object \<open>cacheInput\<close> the chat handler passes to the lookup and to the write.\<close>

definition chat_cacheInput :: "ChatRequest \<Rightarrow> CodeContextInput" where
  "chat_cacheInput req =
     \<lparr>fileContent = message req,
      cursorLine = 0,
      cursorColumn = 0,
      inputLanguage = ''Chat'',
      inputFramework = or_default (mode req) ''chat'',
      suggestionType = ''chat_'' @ or_default (mode req) ''general''\<rparr>"


section \<open>The notions the specification speaks of\<close>


definition magnitude :: "real list \<Rightarrow> real" where
  "magnitude a = sqrt (\<Sum>i<length a. a ! i * a ! i)"

text \<open>
  The keys a lookup examines, the embedding of its request, and the entry it writes
  back on a hit.
\<close>

definition lookup_keys :: "int \<Rightarrow> CodeContextInput \<Rightarrow> server \<Rightarrow> string list" where
  "lookup_keys now input s =
     keys_matching now (CACHE_PREFIX @ inputLanguage input @ '':'' @ inputFramework input @ '':*'') s"

definition query_of :: "(string \<Rightarrow> error + real list) \<Rightarrow> CodeContextInput \<Rightarrow> real list" where
  "query_of model input = generateEmbedding model (buildContext input)"

definition touch :: "int \<Rightarrow> CacheEntry \<Rightarrow> CacheEntry" where
  "touch now e = e\<lparr>hitCount := hitCount e + 1, timestamp := now\<rparr>"

text \<open>
  The similarity a further entry has to exceed to replace the best match, and the
  invariant of the loop: a best match lies above the threshold.
\<close>

definition score :: "best_match option \<Rightarrow> real" where
  "score b = (case b of None \<Rightarrow> SIMILARITY_THRESHOLD | Some (_, best, _) \<Rightarrow> best)"

definition above_threshold :: "best_match option \<Rightarrow> bool" where
  "above_threshold b = (case b of None \<Rightarrow> True | Some (_, best, _) \<Rightarrow> best > SIMILARITY_THRESHOLD)"

text \<open>
  For the examples: an embedding model that returns the same unit vector of length 384 for
  every text, a store with one entry, and a request.
\<close>

definition unit_vector :: "real list" where
  "unit_vector = 1 # replicate 383 0"

definition example_model :: "string \<Rightarrow> error + real list" where
  "example_model text = Inr unit_vector"

definition example_entry :: CacheEntry where
  "example_entry =
     \<lparr>entryId = ''1_a'', entryContext = ''ctx'', embedding = unit_vector, suggestion = ''a + b;'',
      language = ''JavaScript'', framework = ''None'', timestamp = 1, hitCount = 0\<rparr>"

definition example_server :: server where
  "example_server =
     \<lparr>connected = True,
      store = [(''code_suggestion:JavaScript:None:1_a'', Serialized example_entry, 1000)],
      console = []\<rparr>"

definition example_input :: CodeContextInput where
  "example_input =
     \<lparr>fileContent = ''function add(a,b){return '', cursorLine = 0, cursorColumn = 25,
      inputLanguage = ''JavaScript'', inputFramework = ''None'', suggestionType = ''completion''\<rparr>"

definition example_chat :: "ChatMessage list \<Rightarrow> ChatRequest" where
  "example_chat h = \<lparr>message = ''hi'', history = h, mode = Some ''review''\<rparr>"

text \<open>
  The eviction sweep in terms of the store: the entries it sees (alive, under the cache
  prefix), those of them that can be read, the rank by which they are ordered, the item
  the sweep keeps of an entry, the keys of the entries that cannot be read, and the items
  the sweep selects for deletion.
\<close>

definition swept :: "int \<Rightarrow> server \<Rightarrow> (string \<times> redis_value \<times> int) list" where
  "swept now s =
     filter (\<lambda>kv. live now kv \<and> glob_match (CACHE_PREFIX @ ''*'') (fst kv)) (store s)"

definition entry_at :: "string \<times> redis_value \<times> int \<Rightarrow> (string \<times> CacheEntry) option" where
  "entry_at kv = (case fst (snd kv) of Serialized e \<Rightarrow> Some (fst kv, e) | Unparsable \<Rightarrow> None)"

definition readable :: "int \<Rightarrow> server \<Rightarrow> (string \<times> CacheEntry) list" where
  "readable now s = List.map_filter entry_at (swept now s)"

definition rank :: "CacheEntry \<Rightarrow> int \<times> int" where
  "rank e = (hitCount e, timestamp e)"

definition item_of :: "string \<times> CacheEntry \<Rightarrow> sweep_item" where
  "item_of ke = (fst ke, or_zero (timestamp (snd ke)), or_zero (hitCount (snd ke)))"

definition item_rank :: "sweep_item \<Rightarrow> int \<times> int" where
  "item_rank i = (snd (snd i), fst (snd i))"

definition corrupt_keys :: "(string \<times> redis_value \<times> int) list \<Rightarrow> string list" where
  "corrupt_keys kvs = map fst (filter (\<lambda>kv. fst (snd kv) = Unparsable) kvs)"

definition to_delete :: "int \<Rightarrow> server \<Rightarrow> sweep_item list" where
  "to_delete now s =
     (let sorted = sort_key item_rank (map item_of (readable now s))
      in take (slice_index (length sorted) (int (length sorted) - MAX_CACHE_SIZE + 100)) sorted)"

text \<open>The entry \<open>cacheSuggestion\<close> builds, and the key it is stored under.\<close>

definition new_entry ::
  "int \<Rightarrow> (string \<Rightarrow> error + real list) \<Rightarrow> CodeContextInput \<Rightarrow> string \<Rightarrow> CacheEntry" where
  "new_entry now model input answer =
     \<lparr>entryId = generateCacheId now input,
      entryContext = buildContext input,
      embedding = generateEmbedding model (buildContext input),
      suggestion = trim answer,
      language = inputLanguage input,
      framework = inputFramework input,
      timestamp = now,
      hitCount = 0\<rparr>"

definition entry_key :: "CodeContextInput \<Rightarrow> CacheEntry \<Rightarrow> string" where
  "entry_key input e =
     CACHE_PREFIX @ inputLanguage input @ '':'' @ inputFramework input @ '':'' @ entryId e"

text \<open>
  Stores for the examples of the sweep: \<open>n\<close> entries that can be read and \<open>c\<close> that
  cannot, all alive before time 1000.
\<close>

definition example_key :: "string \<Rightarrow> nat \<Rightarrow> string" where
  "example_key t i = CACHE_PREFIX @ ''JavaScript:None:'' @ replicate (Suc i) (CHR ''1'') @ t"

definition sweep_example :: "nat \<Rightarrow> nat \<Rightarrow> server" where
  "sweep_example n c =
     \<lparr>connected = True,
      store =
        map (\<lambda>i. (example_key ''_a'' i, Serialized (example_entry\<lparr>hitCount := int i\<rparr>), 1000)) [0..<n] @
        map (\<lambda>i. (example_key ''_b'' i, Unparsable, 1000)) [0..<c],
      console = []\<rparr>"

text \<open>A string without the characters that have a meaning in a pattern.\<close>

definition plain :: "string \<Rightarrow> bool" where
  "plain p = (\<forall>c \<in> set p. c \<noteq> CHR ''*'' \<and> c \<noteq> CHR ''?'' \<and> c \<noteq> CHR ''['' \<and> c \<noteq> CHR 0x5C)"

text \<open>A valid code request, and a backend that answers it in two chunks.\<close>

definition example_request :: CodeRequest where
  "example_request =
     \<lparr>body_fileContent = Some ''function add(a,b){return '', body_cursorLine = 0,
      body_cursorColumn = 25, body_suggestionType = Some ''completion'',
      body_fileName = None\<rparr>"

definition example_backend :: "CodeRequest \<Rightarrow> string list \<times> error option" where
  "example_backend req = ([''a + '', ''b;''], None)"

text \<open>Requests and files for the examples.\<close>

definition empty_server :: server where
  "empty_server = \<lparr>connected = True, store = [], console = []\<rparr>"

definition chat_with_mode :: "string \<Rightarrow> ChatRequest" where
  "chat_with_mode m = \<lparr>message = ''hi'', history = [], mode = Some m\<rparr>"

definition twelve_lines :: string where
  "twelve_lines = ''l0\<newline>l1\<newline>l2\<newline>l3\<newline>l4\<newline>l5\<newline>l6\<newline>l7\<newline>l8\<newline>l9\<newline>l10\<newline>l11''"

definition six_lines_input :: CodeContextInput where
  "six_lines_input =
     \<lparr>fileContent = ''line0\<newline>line1\<newline>line2\<newline>line3\<newline>line4\<newline>line5'',
      cursorLine = 3, cursorColumn = 0, inputLanguage = ''JavaScript'',
      inputFramework = ''None'', suggestionType = ''completion''\<rparr>"

section \<open>Cosine similarity\<close>



section \<open>Lookup\<close>

subsection \<open>The loop and its result\<close>

lemma update_best_score:
  "above_threshold b \<Longrightarrow>
   above_threshold (update_best q key e b) \<and>
   score (update_best q key e b) = max (score b) (calculateSimilarity q (embedding e))"
  by (auto simp add: update_best_def above_threshold_def score_def Let_def split: option.splits)

lemma update_best_cases:
  "update_best q key e b = b \<or>
   (update_best q key e b = Some (key, calculateSimilarity q (embedding e), e) \<and>
    calculateSimilarity q (embedding e) > SIMILARITY_THRESHOLD)"
  by (simp add: update_best_def Let_def)

lemma lookup_loop_connected:
  assumes "connected s"
  shows "\<exists>r bad'. lookup_loop now s q keys (b, bad) = Inr (r, bad')"
proof (induction keys arbitrary: b bad)
  case Nil
  then show ?case by simp
next
  case (Cons key keys)
  then show ?case
    using assms by (simp add: redis_get_def split: option.splits sum.splits)
qed

lemma lookup_loop_result:
  assumes "connected s" "above_threshold b"
    and "lookup_loop now s q keys (b, bad) = Inr (r, bad')"
  shows "above_threshold r \<and> score b \<le> score r \<and>
         (\<forall>k \<in> set keys. \<forall>e. value_at now k s = Some (Serialized e) \<longrightarrow>
            calculateSimilarity q (embedding e) \<le> score r) \<and>
         (r = b \<or> (\<exists>k \<in> set keys. \<exists>e. value_at now k s = Some (Serialized e) \<and>
            r = Some (k, calculateSimilarity q (embedding e), e)))"
  using assms(2,3)
proof (induction keys arbitrary: b bad)
  case Nil
  then show ?case by simp
next
  case (Cons key keys)
  show ?case
  proof (cases "value_at now key s")
    case None
    with Cons.prems assms(1) have "lookup_loop now s q keys (b, bad) = Inr (r, bad')"
      by (simp add: redis_get_def)
    from Cons.IH[OF Cons.prems(1) this] show ?thesis using None by auto
  next
    case (Some data)
    show ?thesis
    proof (cases data)
      case Unparsable
      with Some Cons.prems assms(1) have "lookup_loop now s q keys (b, Suc bad) = Inr (r, bad')"
        by (simp add: redis_get_def JSON_parse_def)
      from Cons.IH[OF Cons.prems(1) this] show ?thesis using Some Unparsable by auto
    next
      case (Serialized entry)
      let ?b' = "update_best q key entry b"
      from Serialized Some Cons.prems assms(1)
      have run: "lookup_loop now s q keys (?b', bad) = Inr (r, bad')"
        by (simp add: redis_get_def JSON_parse_def)
      from update_best_score[OF Cons.prems(1)]
      have ok: "above_threshold ?b'"
        and sc: "score ?b' = max (score b) (calculateSimilarity q (embedding entry))"
        by simp_all
      from Cons.IH[OF ok run]
      have ih: "above_threshold r" "score ?b' \<le> score r"
        "\<forall>k \<in> set keys. \<forall>e. value_at now k s = Some (Serialized e) \<longrightarrow>
            calculateSimilarity q (embedding e) \<le> score r"
        "r = ?b' \<or> (\<exists>k \<in> set keys. \<exists>e. value_at now k s = Some (Serialized e) \<and>
            r = Some (k, calculateSimilarity q (embedding e), e))"
        by simp_all
      have 1: "score b \<le> score r" using ih(2) sc by simp
      have 2: "\<forall>k \<in> set (key # keys). \<forall>e. value_at now k s = Some (Serialized e) \<longrightarrow>
            calculateSimilarity q (embedding e) \<le> score r"
        using ih(2,3) sc Some Serialized by auto
      have 3: "r = b \<or> (\<exists>k \<in> set (key # keys). \<exists>e. value_at now k s = Some (Serialized e) \<and>
            r = Some (k, calculateSimilarity q (embedding e), e))"
        using ih(4) update_best_cases[of q key entry b] Some Serialized by auto
      from ih(1) 1 2 3 show ?thesis by blast
    qed
  qed
qed


lemma getCachedSuggestion_connected:
  assumes "connected s"
  shows "getCachedSuggestion now model input s =
     (if lookup_keys now input s = [] then (None, s)
      else (case lookup_loop now s (query_of model input) (lookup_keys now input s) (None, 0) of
              Inr (None, bad) \<Rightarrow> (None, log_parse_errors bad s)
            | Inr (Some (key, similarity, entry), bad) \<Rightarrow>
                (Some (suggestion entry),
                 (log_parse_errors bad s)
                   \<lparr>store := filter (\<lambda>kv. fst kv \<noteq> key) (store s) @
                       [(key, Serialized (touch now entry), now + CACHE_TTL * 1000)]\<rparr>)
            | Inl e \<Rightarrow> (None, console_error ''Error in semantic cache lookup:'' s)))"
  using assms
  by (auto simp add: getCachedSuggestion_def getCachedSuggestion_try_def getRedisClient_def
      redis_keys_def lookup_keys_def query_of_def Let_def redis_setEx_def log_parse_errors_def
      JSON_stringify_def touch_def
      split: sum.splits option.splits prod.splits)

lemma lookup_miss:
  assumes "connected s" and "getCachedSuggestion now model input s = (None, s')"
  shows "store s' = store s \<and>
         (\<forall>k \<in> set (lookup_keys now input s). \<forall>e. value_at now k s = Some (Serialized e) \<longrightarrow>
            calculateSimilarity (query_of model input) (embedding e) \<le> SIMILARITY_THRESHOLD)"
proof (cases "lookup_keys now input s = []")
  case True
  then show ?thesis using assms by (simp add: getCachedSuggestion_connected)
next
  case False
  obtain r bad where run:
    "lookup_loop now s (query_of model input) (lookup_keys now input s) (None, 0) = Inr (r, bad)"
    using lookup_loop_connected[OF assms(1)] by blast
  have r: "r = None"
    using assms False run by (auto simp add: getCachedSuggestion_connected split: option.splits)
  have "above_threshold None" by (simp add: above_threshold_def)
  from lookup_loop_result[OF assms(1) this run] r
  have "\<forall>k \<in> set (lookup_keys now input s). \<forall>e. value_at now k s = Some (Serialized e) \<longrightarrow>
            calculateSimilarity (query_of model input) (embedding e) \<le> SIMILARITY_THRESHOLD"
    by (simp add: score_def)
  moreover have "store s' = store s"
    using assms False run r by (auto simp add: getCachedSuggestion_connected log_parse_errors_def)
  ultimately show ?thesis by simp
qed

lemma lookup_hit:
  assumes "connected s" and "getCachedSuggestion now model input s = (Some sugg, s')"
  shows "\<exists>k \<in> set (lookup_keys now input s). \<exists>e.
           value_at now k s = Some (Serialized e) \<and>
           calculateSimilarity (query_of model input) (embedding e) > SIMILARITY_THRESHOLD \<and>
           (\<forall>k' \<in> set (lookup_keys now input s). \<forall>e'. value_at now k' s = Some (Serialized e') \<longrightarrow>
              calculateSimilarity (query_of model input) (embedding e')
                \<le> calculateSimilarity (query_of model input) (embedding e)) \<and>
           sugg = suggestion e \<and>
           store s' = filter (\<lambda>kv. fst kv \<noteq> k) (store s) @
                        [(k, Serialized (touch now e), now + CACHE_TTL * 1000)]"
proof -
  have nonempty: "lookup_keys now input s \<noteq> []"
    using assms by (auto simp add: getCachedSuggestion_connected split: if_splits)
  obtain r bad where run:
    "lookup_loop now s (query_of model input) (lookup_keys now input s) (None, 0) = Inr (r, bad)"
    using lookup_loop_connected[OF assms(1)] by blast
  obtain key sim entry where r: "r = Some (key, sim, entry)"
    using assms nonempty run
    by (cases r) (auto simp add: getCachedSuggestion_connected)
  have out: "sugg = suggestion entry"
    "store s' = filter (\<lambda>kv. fst kv \<noteq> key) (store s) @
                  [(key, Serialized (touch now entry), now + CACHE_TTL * 1000)]"
    using assms nonempty run r
    by (auto simp add: getCachedSuggestion_connected log_parse_errors_def)
  have "above_threshold None" by (simp add: above_threshold_def)
  from lookup_loop_result[OF assms(1) this run]
  have res: "above_threshold r"
    "\<forall>k \<in> set (lookup_keys now input s). \<forall>e. value_at now k s = Some (Serialized e) \<longrightarrow>
        calculateSimilarity (query_of model input) (embedding e) \<le> score r"
    "r = None \<or> (\<exists>k \<in> set (lookup_keys now input s). \<exists>e. value_at now k s = Some (Serialized e) \<and>
        r = Some (k, calculateSimilarity (query_of model input) (embedding e), e))"
    by simp_all
  from res(3) r have mem: "key \<in> set (lookup_keys now input s)"
    "value_at now key s = Some (Serialized entry)"
    "sim = calculateSimilarity (query_of model input) (embedding entry)"
    by auto
  from res(1) r have gt: "sim > SIMILARITY_THRESHOLD" by (simp add: above_threshold_def)
  from res(2) r have mx: "\<forall>k \<in> set (lookup_keys now input s). \<forall>e. value_at now k s = Some (Serialized e) \<longrightarrow>
        calculateSimilarity (query_of model input) (embedding e) \<le> sim"
    by (simp add: score_def)
  show ?thesis
    using mem gt mx out by blast
qed


subsection \<open>A lookup that hits\<close>

lemma glob_match_star [simp]: "glob_match ''*'' x"
  by (induction x) simp_all

lemma sim_loop_zeros: "sim_loop (replicate n 0) (replicate n 0) acc = acc"
  by (induction n arbitrary: acc) (auto simp add: split_paired_all)

lemma similarity_unit: "calculateSimilarity unit_vector unit_vector = 1"
  by (simp add: calculateSimilarity_def unit_vector_def sim_loop_zeros)

lemma example_lookup:
  "getCachedSuggestion 5 example_model example_input example_server =
     (Some ''a + b;'',
      \<lparr>connected = True,
       store = [(''code_suggestion:JavaScript:None:1_a'',
                 Serialized (example_entry\<lparr>hitCount := 1, timestamp := 5\<rparr>), 604800005)],
       console = []\<rparr>)"
  by (simp add: getCachedSuggestion_connected example_server_def example_input_def
      lookup_keys_def keys_matching_def live_def CACHE_PREFIX_def redis_get_def value_at_def
      JSON_parse_def query_of_def generateEmbedding_def example_model_def update_best_def similarity_unit
      SIMILARITY_THRESHOLD_def log_parse_errors_def touch_def CACHE_TTL_def example_entry_def)

subsection \<open>A failing embedding model\<close>





subsection \<open>The entry written back on a hit\<close>

lemma value_at_after_hit:
  assumes "store s' = filter (\<lambda>kv. fst kv \<noteq> key) xs @ [(key, v, ex)]"
  shows "value_at t key s' = (if t < ex then Some v else None)"
proof -
  have "find (\<lambda>kv. fst kv = key \<and> live t kv) (filter (\<lambda>kv. fst kv \<noteq> key) xs @ [(key, v, ex)])
        = (if t < ex then Some (key, v, ex) else None)"
    by (induction xs) (auto simp add: live_def)
  then show ?thesis using assms by (simp add: value_at_def)
qed

text \<open>
  C9. A lookup that returns a suggestion has matched a stored entry; it stores under the
  same key the entry with the hit count increased by one and the timestamp set to the time
  of the lookup, all other fields as they were, to expire seven days after the lookup: the
  key can be read at every time before that, and no longer after it until it is written
  again.
\<close>

theorem hit_renews_expiry:
  assumes "connected s" and "getCachedSuggestion now model input s = (Some sugg, s')"
  shows "\<exists>key e. value_at now key s = Some (Serialized e) \<and> sugg = suggestion e \<and>
           (let e' = e\<lparr>hitCount := hitCount e + 1, timestamp := now\<rparr>;
                expiry = now + 7 * 24 * 60 * 60 * 1000
            in store s' = filter (\<lambda>kv. fst kv \<noteq> key) (store s) @ [(key, JSON_stringify e', expiry)] \<and>
               (\<forall>t. t < expiry \<longrightarrow> value_at t key s' = Some (JSON_stringify e')) \<and>
               (\<forall>t. expiry < t \<longrightarrow> value_at t key s' = None) \<and>
               entryId e' = entryId e \<and> entryContext e' = entryContext e \<and>
               embedding e' = embedding e \<and> suggestion e' = suggestion e \<and>
               language e' = language e \<and> framework e' = framework e)"
proof -
  from lookup_hit[OF assms] obtain k e where
    v: "value_at now k s = Some (Serialized e)" and sg: "sugg = suggestion e" and
    st: "store s' = filter (\<lambda>kv. fst kv \<noteq> k) (store s) @
                        [(k, Serialized (touch now e), now + CACHE_TTL * 1000)]"
    by auto
  have rd: "value_at t k s' = (if t < now + CACHE_TTL * 1000 then Some (Serialized (touch now e)) else None)" for t
    by (rule value_at_after_hit[OF st])
  show ?thesis
    apply (rule exI[of _ k], rule exI[of _ e])
    using v sg st rd by (simp add: Let_def touch_def JSON_stringify_def CACHE_TTL_def)
qed


theorem hit_renews_expiry_witness:
  "connected example_server \<and>
   fst (getCachedSuggestion 5 example_model example_input example_server) = Some ''a + b;'' \<and>
   (\<exists>key e. value_at 5 key example_server = Some (Serialized e) \<and>
      value_at 604800004 key (snd (getCachedSuggestion 5 example_model example_input example_server))
        = Some (JSON_stringify (e\<lparr>hitCount := hitCount e + 1, timestamp := 5\<rparr>)) \<and>
      value_at 604800006 key (snd (getCachedSuggestion 5 example_model example_input example_server))
        = None)"
proof -
  let ?r = "getCachedSuggestion 5 example_model example_input example_server"
  have c: "connected example_server" by (simp add: example_server_def)
  have f: "fst ?r = Some ''a + b;''" by (simp add: example_lookup)
  then have h: "?r = (Some ''a + b;'', snd ?r)" by (metis prod.collapse)
  from hit_renews_expiry[OF c h] obtain key e where
    k1: "value_at 5 key example_server = Some (Serialized e)" and
    k2: "\<forall>t. t < 5 + 7 * 24 * 60 * 60 * 1000 \<longrightarrow>
          value_at t key (snd ?r) = Some (JSON_stringify (e\<lparr>hitCount := hitCount e + 1, timestamp := 5\<rparr>))" and
    k3: "\<forall>t. 5 + 7 * 24 * 60 * 60 * 1000 < t \<longrightarrow> value_at t key (snd ?r) = None"
    unfolding Let_def by blast
  from k2 have k2': "value_at 604800004 key (snd ?r)
      = Some (JSON_stringify (e\<lparr>hitCount := hitCount e + 1, timestamp := 5\<rparr>))" by simp
  from k3 have k3': "value_at 604800006 key (snd ?r) = None" by simp
  from c f k1 k2' k3' show ?thesis by blast
qed

subsection \<open>Chat requests\<close>

text \<open>
  C10. The context of a chat request is built with an empty history, in the lookup and in
  the write alike. Two chat requests with the same message and the same mode therefore have
  the same context and the same embedding, and on the same store the lookup returns the same
  result and the write leaves the same store, whatever their histories are.
\<close>

theorem chat_cache_ignores_history:
  assumes "message r1 = message r2" and "mode r1 = mode r2"
  shows "buildContext (chat_cacheInput r1) =
           createChatContext (message r1) (or_default (mode r1) ''chat'') [] \<and>
         buildContext (chat_cacheInput r1) = buildContext (chat_cacheInput r2) \<and>
         generateEmbedding model (buildContext (chat_cacheInput r1)) =
           generateEmbedding model (buildContext (chat_cacheInput r2)) \<and>
         getCachedSuggestion now model (chat_cacheInput r1) s =
           getCachedSuggestion now model (chat_cacheInput r2) s \<and>
         cacheSuggestion now model (chat_cacheInput r1) answer s =
           cacheSuggestion now model (chat_cacheInput r2) answer s"
proof -
  have "chat_cacheInput r1 = chat_cacheInput r2"
    using assms by (simp add: chat_cacheInput_def)
  moreover have "buildContext (chat_cacheInput r1) =
           createChatContext (message r1) (or_default (mode r1) ''chat'') []"
    by (simp add: buildContext_def chat_cacheInput_def)
  ultimately show ?thesis by simp
qed

lemma chat_context_example:
  "buildContext (chat_cacheInput (example_chat [\<lparr>role = ''user'', content = ''earlier''\<rparr>]))
     = ''Mode: review\<newline>Recent conversation:\<newline>Current message: hi''"
  by (simp add: buildContext_def chat_cacheInput_def example_chat_def createChatContext_def
      js_slice_def slice_index_def or_default_def)

theorem chat_cache_ignores_history_witness:
  "message (example_chat []) = message (example_chat [\<lparr>role = ''user'', content = ''earlier''\<rparr>]) \<and>
   mode (example_chat []) = mode (example_chat [\<lparr>role = ''user'', content = ''earlier''\<rparr>]) \<and>
   history (example_chat []) \<noteq> history (example_chat [\<lparr>role = ''user'', content = ''earlier''\<rparr>]) \<and>
   buildContext (chat_cacheInput (example_chat [])) =
     buildContext (chat_cacheInput (example_chat [\<lparr>role = ''user'', content = ''earlier''\<rparr>])) \<and>
   getCachedSuggestion 5 example_model (chat_cacheInput (example_chat [])) example_server =
     getCachedSuggestion 5 example_model
       (chat_cacheInput (example_chat [\<lparr>role = ''user'', content = ''earlier''\<rparr>])) example_server"
proof -
  let ?a = "example_chat []" and ?b = "example_chat [\<lparr>role = ''user'', content = ''earlier''\<rparr>]"
  have m: "message ?a = message ?b" and d: "mode ?a = mode ?b" and h: "history ?a \<noteq> history ?b"
    by (simp_all add: example_chat_def)
  from chat_cache_ignores_history[OF m d, of example_model 5 example_server "''x''"] m d h
  show ?thesis by blast
qed

subsection \<open>Failures of the store\<close>

text \<open>
  C7. A failure inside \<open>getCachedSuggestion\<close> is caught: the function reports it on the
  console and returns no result. A failure inside \<open>cacheSuggestion\<close> is caught as well:
  the function reports it and returns, and does not try the write again. In particular,
  when the store cannot be reached the lookup returns no result and the write leaves the
  store as it was.
\<close>

theorem cache_failures_stay_inside:
  "(getCachedSuggestion_try now model input s = Inl e \<longrightarrow>
      getCachedSuggestion now model input s =
        (None, console_error ''Error in semantic cache lookup:'' s)) \<and>
   (cacheSuggestion_try now model input answer s = Inl e \<longrightarrow>
      cacheSuggestion now model input answer s = console_error ''Error caching suggestion:'' s) \<and>
   (\<not> connected s \<longrightarrow>
      getCachedSuggestion now model input s =
        (None, console_error ''Error in semantic cache lookup:'' s) \<and>
      cacheSuggestion now model input answer s = console_error ''Error caching suggestion:'' s \<and>
      store (cacheSuggestion now model input answer s) = store s)"
  by (simp add: getCachedSuggestion_def cacheSuggestion_def getCachedSuggestion_try_def
      cacheSuggestion_try_def getRedisClient_def console_error_def)

theorem cache_failures_stay_inside_witness:
  "\<not> connected (example_server\<lparr>connected := False\<rparr>) \<and>
   getCachedSuggestion_try 5 example_model example_input (example_server\<lparr>connected := False\<rparr>)
     = Inl ConnectionError \<and>
   cacheSuggestion_try 5 example_model example_input ''x'' (example_server\<lparr>connected := False\<rparr>)
     = Inl ConnectionError \<and>
   fst (getCachedSuggestion 5 example_model example_input (example_server\<lparr>connected := False\<rparr>)) = None \<and>
   store (cacheSuggestion 5 example_model example_input ''x'' (example_server\<lparr>connected := False\<rparr>))
     = store example_server \<and>
   console (cacheSuggestion 5 example_model example_input ''x'' (example_server\<lparr>connected := False\<rparr>))
     = [''Error caching suggestion:'']"
proof -
  let ?s = "example_server\<lparr>connected := False\<rparr>"
  have d: "\<not> connected ?s" by simp
  have t: "getCachedSuggestion_try 5 example_model example_input ?s = Inl ConnectionError"
    "cacheSuggestion_try 5 example_model example_input ''x'' ?s = Inl ConnectionError"
    by (simp_all add: getCachedSuggestion_try_def cacheSuggestion_try_def getRedisClient_def)
  show ?thesis
    using d t cache_failures_stay_inside[of 5 example_model example_input ?s ConnectionError "''x''"]
    by (simp add: console_error_def example_server_def)
qed

section \<open>Request validation\<close>

text \<open>
  A valid request is served: from the cache when the lookup finds an entry, and
  otherwise by the backend, after which the answer is written to the cache.
\<close>

lemma example_detect:
  "detectLanguage ''function add(a,b){return '' None = ''JavaScript''"
  "detectFramework ''function add(a,b){return '' = ''None''"
  by (simp_all add: detectLanguage_def detectFramework_def truthy_def)

lemma lookup_in_empty_store:
  "getCachedSuggestion now model input empty_server = (None, empty_server)"
  by (simp add: getCachedSuggestion_connected lookup_keys_def keys_matching_def empty_server_def)

lemma valid_request_served:
  "fst (POST 5 example_model example_backend (Inr example_request) example_server)
     = EventStream [Chunk ''a + b;'' True, Done True] \<and>
   snd (snd (POST 5 example_model example_backend (Inr example_request) example_server))
     = [CacheLookup] \<and>
   fst (POST 5 example_model example_backend (Inr example_request) empty_server)
     = EventStream [Chunk ''a + '' False, Chunk ''b;'' False, Done False] \<and>
   snd (snd (POST 5 example_model example_backend (Inr example_request) empty_server))
     = [CacheLookup, Generation, CacheWrite]"
  by (simp add: POST_def example_request_def example_backend_def truthy_def or_default_def
      example_detect example_lookup[unfolded example_input_def] lookup_in_empty_store
      trim_def is_space_def Let_def)

text \<open>
  C8. A code request without \<open>fileContent\<close>, with a negative \<open>cursorLine\<close>, with a
  negative \<open>cursorColumn\<close> or without \<open>suggestionType\<close> is answered with status 400
  and a description of the error; the handler makes no cache lookup, no cache write and no
  request to the generation backend, and the store is as before.
\<close>

theorem invalid_request_rejected:
  assumes "body_fileContent req = None \<or> body_cursorLine req < 0 \<or> body_cursorColumn req < 0 \<or>
           body_suggestionType req = None"
  shows "POST now model generate (Inr req) s =
           (JsonResponse 400 ''{\"error\":\"Invalid input parameters\"}'', s, [])"
  using assms by (auto simp add: POST_def truthy_def)

theorem invalid_request_rejected_witness:
  "POST 5 example_model example_backend (Inr (example_request\<lparr>body_fileContent := None\<rparr>)) example_server
     = (JsonResponse 400 ''{\"error\":\"Invalid input parameters\"}'', example_server, []) \<and>
   POST 5 example_model example_backend (Inr (example_request\<lparr>body_cursorLine := - 1\<rparr>)) example_server
     = (JsonResponse 400 ''{\"error\":\"Invalid input parameters\"}'', example_server, []) \<and>
   POST 5 example_model example_backend (Inr (example_request\<lparr>body_cursorColumn := - 1\<rparr>)) example_server
     = (JsonResponse 400 ''{\"error\":\"Invalid input parameters\"}'', example_server, []) \<and>
   POST 5 example_model example_backend (Inr (example_request\<lparr>body_suggestionType := None\<rparr>)) example_server
     = (JsonResponse 400 ''{\"error\":\"Invalid input parameters\"}'', example_server, [])"
  using
    invalid_request_rejected[of "example_request\<lparr>body_fileContent := None\<rparr>"
      5 example_model example_backend example_server]
    invalid_request_rejected[of "example_request\<lparr>body_cursorLine := - 1\<rparr>"
      5 example_model example_backend example_server]
    invalid_request_rejected[of "example_request\<lparr>body_cursorColumn := - 1\<rparr>"
      5 example_model example_backend example_server]
    invalid_request_rejected[of "example_request\<lparr>body_suggestionType := None\<rparr>"
      5 example_model example_backend example_server]
  by simp

section \<open>Namespaces\<close>

text \<open>
  For a language and a framework without pattern characters, the keys a lookup examines
  are the keys alive that begin with the prefix, the language, a colon, the framework and
  a colon.
\<close>

lemma glob_match_plain_prefix:
  "plain p \<Longrightarrow> glob_match (p @ ''*'') k = (take (length p) k = p)"
proof (induction p arbitrary: k)
  case Nil
  then show ?case by (simp del: glob_match.simps)
next
  case (Cons c p)
  then have p: "plain p" and c: "c \<noteq> CHR ''*''" "c \<noteq> CHR ''?''" "c \<noteq> CHR 0x5C"
    by (simp_all add: plain_def)
  show ?case
  proof (cases k)
    case Nil
    then show ?thesis using c by simp
  next
    case (Cons d k')
    then show ?thesis using c Cons.IH[OF p, of k'] by auto
  qed
qed

lemma lookup_keys_plain:
  assumes "plain (inputLanguage input)" "plain (inputFramework input)"
  shows "lookup_keys now input s =
     map fst (filter (\<lambda>kv. live now kv \<and>
        startsWith (fst kv) (CACHE_PREFIX @ inputLanguage input @ '':'' @ inputFramework input @ '':''))
          (store s))"
proof -
  let ?p = "CACHE_PREFIX @ inputLanguage input @ '':'' @ inputFramework input @ '':''"
  have "plain ?p" using assms by (auto simp add: plain_def CACHE_PREFIX_def)
  from glob_match_plain_prefix[OF this]
  have "glob_match (?p @ ''*'') k = startsWith k ?p" for k
    by (simp add: startsWith_def)
  then show ?thesis
    by (simp add: lookup_keys_def keys_matching_def)
qed

lemmas write_eval =
  cacheSuggestion_def cacheSuggestion_try_def getRedisClient_def empty_server_def
  chat_cacheInput_def chat_with_mode_def or_default_def redis_setEx_def JSON_stringify_def
  generateCacheId_def js_substring_def simpleHash_def hash_step_def to_int32_def
  show_int_def show_nat_def digit_char_def CACHE_PREFIX_def CACHE_TTL_def trim_def is_space_def
  cleanupOldEntries_def cleanupOldEntries_try_def redis_keys_def keys_matching_def live_def
  MAX_CACHE_SIZE_def buildContext_def createChatContext_def js_slice_def slice_index_def
  generateEmbedding_def example_model_def

lemmas lookup_eval =
  getCachedSuggestion_def getCachedSuggestion_try_def redis_get_def value_at_def JSON_parse_def
  update_best_def similarity_unit SIMILARITY_THRESHOLD_def log_parse_errors_def

text \<open>
  C1. A lookup examines the keys that match the pattern made of the cache prefix, the
  language, the framework and a final star. A star in the mode of a chat request is part
  of that pattern: after an answer was written for the mode \<open>review\<close>, a lookup with the
  mode \<open>*\<close> returns it, whereas a lookup with the mode \<open>fix\<close> returns nothing. An answer
  written for the mode \<open>chat:x\<close> is returned to a lookup with the mode \<open>chat\<close>, its key
  beginning with the prefix of that mode.
\<close>

theorem lookup_crosses_namespaces:
  "fst (getCachedSuggestion 2000 example_model (chat_cacheInput (chat_with_mode ''*''))
         (cacheSuggestion 1000 example_model (chat_cacheInput (chat_with_mode ''review''))
            ''Looks fine.'' empty_server))
     = Some ''Looks fine.'' \<and>
   fst (getCachedSuggestion 2000 example_model (chat_cacheInput (chat_with_mode ''fix''))
         (cacheSuggestion 1000 example_model (chat_cacheInput (chat_with_mode ''review''))
            ''Looks fine.'' empty_server))
     = None \<and>
   fst (getCachedSuggestion 2000 example_model (chat_cacheInput (chat_with_mode ''chat''))
         (cacheSuggestion 1000 example_model (chat_cacheInput (chat_with_mode ''chat:x''))
            ''Looks fine.'' empty_server))
     = Some ''Looks fine.''"
  by (simp add: write_eval lookup_eval)


section \<open>The code context\<close>

text \<open>
  With at least five lines before the cursor line and five lines from it on, the window
  is the ten lines that begin five lines before the cursor line.
\<close>

lemma createCodeContext_window:
  assumes "5 \<le> cl" and "cl + 5 \<le> int (length (split_on (CHR 0x0A) text))"
  shows "createCodeContext text cl col lang fw =
     join_with [CHR 0x0A]
       ([''Language: '' @ lang, ''Framework: '' @ fw, ''Context:''] @
        take 10 (drop (nat (cl - 5)) (split_on (CHR 0x0A) text)) @
        [''Cursor at line '' @ show_int cl @ '', column '' @ show_int col,
         ''Current line: '' @ split_on (CHR 0x0A) text ! nat cl])"
proof -
  let ?lines = "split_on (CHR 0x0A) text"
  define n where "n = nat cl"
  have n: "cl = int n" "5 \<le> n" "n + 5 \<le> length ?lines"
    using assms by (simp_all add: n_def)
  have lo: "slice_index (length ?lines) (max 0 (cl - contextRadius)) = n - 5"
    using n by (simp add: slice_index_def contextRadius_def)
  have hi: "slice_index (length ?lines) (min (int (length ?lines)) (cl + contextRadius)) = n + 5"
    using n by (simp add: slice_index_def contextRadius_def)
  have "js_slice ?lines (max 0 (cl - contextRadius)) (min (int (length ?lines)) (cl + contextRadius))
         = take (n + 5 - (n - 5)) (drop (n - 5) ?lines)"
    by (simp add: js_slice_def lo hi Let_def)
  moreover have "n + 5 - (n - 5) = 10" "n - 5 = nat (cl - 5)"
    using n by simp_all
  ultimately have "js_slice ?lines (max 0 (cl - contextRadius))
           (min (int (length ?lines)) (cl + contextRadius))
         = take 10 (drop (nat (cl - 5)) ?lines)"
    by simp
  moreover have "line_or_empty ?lines cl = ?lines ! nat cl"
    using assms by (simp add: line_or_empty_def)
  ultimately show ?thesis
    by (simp add: createCodeContext_def Let_def)
qed

text \<open>
  C3. In a file of twelve lines with the cursor on line 5, the context holds the
  lines 0 to 9: five lines before the cursor line, the cursor line, and four lines after
  it. Line 10, the fifth line after the cursor, is not part of it.
\<close>

theorem createCodeContext_window_example:
  "createCodeContext twelve_lines 5 0 ''JavaScript'' ''None'' =
   ''Language: JavaScript\<newline>Framework: None\<newline>Context:\<newline>l0\<newline>l1\<newline>l2\<newline>l3\<newline>l4\<newline>l5\<newline>l6\<newline>l7\<newline>l8\<newline>l9\<newline>Cursor at line 5, column 0\<newline>Current line: l5''"
  by (simp add: twelve_lines_def createCodeContext_def contextRadius_def js_slice_def slice_index_def
      line_or_empty_def show_int_def show_nat_def digit_char_def)


section \<open>The cache id\<close>

text \<open>
  C6. The id is the time, an underscore and the hash of a slice of the file content
  followed by the suggestion type. The slice is taken by character positions: with the
  cursor on line 3 it is the characters 1 to 5 of the file, here the end of the first line
  and its line feed, and not the lines 1 to 5.
\<close>

theorem generateCacheId_slices_characters:
  "generateCacheId 1700000000000 six_lines_input
     = ''1700000000000_'' @ simpleHash (''ine0\<newline>'' @ ''completion'') \<and>
   generateCacheId 1700000000000 six_lines_input
     \<noteq> ''1700000000000_'' @
        simpleHash (''line1\<newline>line2\<newline>line3\<newline>line4\<newline>line5'' @ ''completion'')"
  by (simp add: six_lines_input_def generateCacheId_def js_substring_def simpleHash_def
      hash_step_def to_int32_def show_int_def show_nat_def digit_char_def)

section \<open>The eviction sweep\<close>

lemma value_at_member:
  assumes "distinct (map fst xs)" "kv \<in> set xs" "live now kv"
  shows "find (\<lambda>x. fst x = fst kv \<and> live now x) xs = Some kv"
  using assms
proof (induction xs)
  case Nil
  then show ?case by simp
next
  case (Cons x xs)
  then show ?case by (auto simp add: rev_image_eqI)
qed

lemma value_at_store:
  "distinct (map fst (store s)) \<Longrightarrow> kv \<in> set (store s) \<Longrightarrow> live now kv
   \<Longrightarrow> value_at now (fst kv) s = Some (fst (snd kv))"
  by (simp add: value_at_def value_at_member)

lemma readable_items:
  "map item_of (List.map_filter entry_at kvs) =
   List.map_filter (\<lambda>kv. case fst (snd kv) of
        Serialized e \<Rightarrow> Some (fst kv, or_zero (timestamp e), or_zero (hitCount e))
      | Unparsable \<Rightarrow> None) kvs"
  by (induction kvs) (auto simp add: List.map_filter_simps entry_at_def item_of_def split: redis_value.splits)

lemma collect_loop_spec:
  assumes "connected s" "distinct (map fst (store s))" "set kvs \<subseteq> set (store s)"
    "\<forall>kv \<in> set kvs. live now kv" "distinct (map fst kvs)"
  shows "collect_loop now (map fst kvs) (s, acc) =
           Inr (s\<lparr>store := filter (\<lambda>kv. fst kv \<notin> set (corrupt_keys kvs)) (store s)\<rparr>,
                acc @ map item_of (List.map_filter entry_at kvs))"
  using assms
proof (induction kvs arbitrary: s acc)
  case Nil
  then show ?case by (simp add: corrupt_keys_def List.map_filter_simps)
next
  case (Cons kv kvs)
  have v: "value_at now (fst kv) s = Some (fst (snd kv))"
    using Cons.prems by (intro value_at_store) simp_all
  show ?case
  proof (cases "fst (snd kv)")
    case (Serialized e)
    have ih: "collect_loop now (map fst kvs) (s, acc @ [item_of (fst kv, e)]) =
           Inr (s\<lparr>store := filter (\<lambda>kv. fst kv \<notin> set (corrupt_keys kvs)) (store s)\<rparr>,
                (acc @ [item_of (fst kv, e)]) @ map item_of (List.map_filter entry_at kvs))"
      using Cons.prems by (intro Cons.IH) simp_all
    have mf: "entry_at kv = Some (fst kv, e)"
      using Serialized by (simp add: entry_at_def)
    have it: "(fst kv, or_zero (timestamp e), or_zero (hitCount e)) = item_of (fst kv, e)"
      by (simp add: item_of_def)
    have ck: "corrupt_keys (kv # kvs) = corrupt_keys kvs"
      using Serialized by (simp add: corrupt_keys_def)
    show ?thesis
      using Cons.prems(1) v Serialized ih
      by (simp add: redis_get_def JSON_parse_def mf it ck)
  next
    case Unparsable
    let ?s1 = "s\<lparr>store := filter (\<lambda>x. fst x \<notin> set [fst kv]) (store s)\<rparr>"
    have sub: "set kvs \<subseteq> set (store ?s1)"
      using Cons.prems(3,5) by (auto simp add: rev_image_eqI)
    have ih: "collect_loop now (map fst kvs) (?s1, acc) =
           Inr (?s1\<lparr>store := filter (\<lambda>kv. fst kv \<notin> set (corrupt_keys kvs)) (store ?s1)\<rparr>,
                acc @ map item_of (List.map_filter entry_at kvs))"
      using Cons.prems sub by (intro Cons.IH) (simp_all add: distinct_map_filter)
    have st: "filter (\<lambda>x. fst x \<notin> set (corrupt_keys kvs)) (filter (\<lambda>x. fst x \<notin> set [fst kv]) (store s))
        = filter (\<lambda>x. fst x \<notin> set (corrupt_keys (kv # kvs))) (store s)"
      using Unparsable by (auto simp add: corrupt_keys_def intro: filter_cong)
    have mf: "entry_at kv = None"
      using Unparsable by (simp add: entry_at_def)
    show ?thesis
      using Cons.prems(1) v Unparsable ih st
      by (simp add: redis_get_def JSON_parse_def redis_del_def mf)
  qed
qed


lemma compare_items_rank: "compare_items x y \<le> 0 \<longleftrightarrow> item_rank x \<le> item_rank y"
  by (cases x; cases y) (auto simp add: item_rank_def less_eq_prod_def)

lemma insert_by_insort: "insert_by compare_items x ys = insort_key item_rank x ys"
  by (induction ys) (simp_all add: compare_items_rank)

lemma sort_by_sort_key: "sort_by compare_items xs = sort_key item_rank xs"
proof -
  have "insert_by compare_items = insort_key item_rank"
    by (intro ext) (rule insert_by_insort)
  then show ?thesis by (simp add: sort_by_def sort_key_def)
qed

lemma js_slice_prefix: "js_slice xs 0 e = take (slice_index (length xs) e) xs"
  by (simp add: js_slice_def slice_index_def)

lemma swept_facts:
  "set (swept now s) \<subseteq> set (store s)" "\<forall>kv \<in> set (swept now s). live now kv"
  "distinct (map fst (store s)) \<Longrightarrow> distinct (map fst (swept now s))"
  by (auto simp add: swept_def distinct_map_filter)

lemma cleanup_connected:
  assumes "connected s" "distinct (map fst (store s))"
  shows "cleanupOldEntries now s =
     (if int (length (swept now s)) \<le> MAX_CACHE_SIZE then s
      else s\<lparr>store := filter (\<lambda>kv. fst kv \<notin> set (corrupt_keys (swept now s)) \<and>
                                  fst kv \<notin> set (map fst (to_delete now s))) (store s)\<rparr>)"
proof -
  have keys: "redis_keys now (CACHE_PREFIX @ ''*'') s = Inr (map fst (swept now s))"
    using assms(1) by (simp add: redis_keys_def keys_matching_def swept_def)
  have col: "collect_loop now (map fst (swept now s)) (s, []) =
           Inr (s\<lparr>store := filter (\<lambda>kv. fst kv \<notin> set (corrupt_keys (swept now s))) (store s)\<rparr>,
                [] @ map item_of (readable now s))"
    unfolding readable_def using assms swept_facts[where s = s and now = now]
    by (intro collect_loop_spec) simp_all
  show ?thesis
    using assms(1)
    by (simp add: cleanupOldEntries_def cleanupOldEntries_try_def keys col sort_by_sort_key
        js_slice_prefix to_delete_def Let_def redis_del_def)
qed


lemma swept_filter_store:
  "store s' = filter P (store s) \<Longrightarrow> swept now s' = filter P (swept now s)"
  by (simp add: swept_def conj_commute)

lemma readable_keys: "map fst (List.map_filter entry_at kvs) = map fst (filter (\<lambda>kv. entry_at kv \<noteq> None) kvs)"
  by (induction kvs) (auto simp add: entry_at_def split: redis_value.splits)

lemma readable_distinct:
  "distinct (map fst (store s)) \<Longrightarrow> distinct (map fst (readable now s))"
  by (simp add: readable_def readable_keys swept_facts distinct_map_filter)

lemma corrupt_not_readable:
  assumes "distinct (map fst kvs)" "kv \<in> set kvs" "entry_at kv \<noteq> None"
  shows "fst kv \<notin> set (corrupt_keys kvs)"
proof
  assume "fst kv \<in> set (corrupt_keys kvs)"
  then obtain kv' where k: "kv' \<in> set kvs" "fst (snd kv') = Unparsable" "fst kv' = fst kv"
    by (auto simp add: corrupt_keys_def)
  from assms(1) k(1,3) assms(2) have "kv' = kv"
    by (metis distinct_map inj_onD)
  with k(2) assms(3) show False by (simp add: entry_at_def)
qed

lemma readable_after_filter:
  assumes "\<forall>kv \<in> set kvs. entry_at kv \<noteq> None \<longrightarrow> fst kv \<notin> C"
  shows "List.map_filter entry_at (filter (\<lambda>kv. fst kv \<notin> C \<and> fst kv \<notin> D) kvs)
         = filter (\<lambda>ke. fst ke \<notin> D) (List.map_filter entry_at kvs)"
  using assms
proof (induction kvs)
  case Nil
  then show ?case by simp
next
  case (Cons kv kvs)
  then show ?case
    by (cases "fst (snd kv)") (auto simp add: entry_at_def)
qed

lemma readable_after_cleanup:
  assumes "connected s" "distinct (map fst (store s))"
    "int (length (swept now s)) > MAX_CACHE_SIZE"
  shows "readable now (cleanupOldEntries now s)
         = filter (\<lambda>ke. fst ke \<notin> set (map fst (to_delete now s))) (readable now s)"
proof -
  let ?P = "\<lambda>kv. fst kv \<notin> set (corrupt_keys (swept now s)) \<and>
                   fst kv \<notin> set (map fst (to_delete now s))"
  have st: "store (cleanupOldEntries now s) = filter ?P (store s)"
    using assms by (simp add: cleanup_connected)
  have "\<forall>kv \<in> set (swept now s). entry_at kv \<noteq> None \<longrightarrow> fst kv \<notin> set (corrupt_keys (swept now s))"
    using corrupt_not_readable swept_facts(3)[OF assms(2)] by blast
  from readable_after_filter[OF this] show ?thesis
    by (simp add: readable_def swept_filter_store[OF st])
qed


lemma item_key: "fst (item_of ke) = fst ke"
  by (simp add: item_of_def)

lemma item_rank_of: "item_rank (item_of ke) = rank (snd ke)"
  by (simp add: item_rank_def item_of_def rank_def or_zero_def)

text \<open>The sorted items have the keys of the entries, in ascending order of rank.\<close>

lemma sorted_items:
  fixes R :: "(string \<times> CacheEntry) list"
  defines "S \<equiv> sort_key item_rank (map item_of R)"
  shows "mset (map fst S) = mset (map fst R)" "set S = item_of ` set R"
    "sorted (map item_rank S)" "length S = length R"
proof -
  have "mset S = mset (map item_of R)" by (simp add: S_def)
  then have "mset (map fst S) = mset (map fst (map item_of R))"
    by (metis mset_map)
  then show "mset (map fst S) = mset (map fst R)" by (simp add: item_key o_def)
  show "set S = item_of ` set R" by (simp add: S_def)
  show "sorted (map item_rank S)" by (simp add: S_def)
  show "length S = length R" by (simp add: S_def)
qed

lemma count_outside_prefix:
  fixes R :: "(string \<times> CacheEntry) list" and S :: "sweep_item list"
  assumes "distinct (map fst R)" "mset (map fst S) = mset (map fst R)"
  shows "length (filter (\<lambda>ke. fst ke \<notin> set (map fst (take m S))) R) = length R - min m (length R)"
proof -
  let ?K = "set (map fst (take m S))"
  have dS: "distinct (map fst S)"
    using assms by (metis mset_eq_imp_distinct_iff)
  have len: "length S = length R"
    using assms(2) by (metis length_map mset_eq_length)
  have sub: "?K \<subseteq> set (map fst R)"
    using assms(2) by (metis mset_eq_setD set_take_subset take_map)
  have "length (filter (\<lambda>ke. fst ke \<in> ?K) R) = length (filter (\<lambda>k. k \<in> ?K) (map fst R))"
    by (simp add: filter_map o_def)
  also have "\<dots> = card ({k. k \<in> ?K} \<inter> set (map fst R))"
    using assms(1) by (rule distinct_length_filter)
  also have "\<dots> = card ?K"
    using sub by (simp add: Int_absorb2)
  also have "\<dots> = length (map fst (take m S))"
    using dS by (metis distinct_card distinct_take take_map)
  also have "\<dots> = min m (length R)"
    using len by simp
  finally have inside: "length (filter (\<lambda>ke. fst ke \<in> ?K) R) = min m (length R)" .
  have "length (filter (\<lambda>ke. fst ke \<in> ?K) R) + length (filter (\<lambda>ke. \<not> fst ke \<in> ?K) R) = length R"
    by (rule sum_length_filter_compl)
  with inside show ?thesis by simp
qed

lemma slice_index_le: "slice_index n i \<le> n"
  by (auto simp add: slice_index_def)

lemma readable_count_after_cleanup:
  assumes "connected s" "distinct (map fst (store s))"
    "int (length (swept now s)) > MAX_CACHE_SIZE"
  shows "length (readable now (cleanupOldEntries now s)) =
         length (readable now s) -
           slice_index (length (readable now s)) (int (length (readable now s)) - MAX_CACHE_SIZE + 100)"
proof -
  let ?R = "readable now s"
  let ?S = "sort_key item_rank (map item_of ?R)"
  let ?m = "slice_index (length ?R) (int (length ?R) - MAX_CACHE_SIZE + 100)"
  have td: "to_delete now s = take ?m ?S"
    by (simp add: to_delete_def Let_def)
  have "?m \<le> length ?R" by (rule slice_index_le)
  then have "min ?m (length ?R) = ?m" by simp
  moreover have d: "distinct (map fst ?R)" by (rule readable_distinct[OF assms(2)])
  moreover have ms: "mset (map fst ?S) = mset (map fst ?R)" by (rule sorted_items(1))
  ultimately show ?thesis
    using count_outside_prefix[OF d ms, of ?m]
    by (simp add: readable_after_cleanup[OF assms] td)
qed

lemma deleted_rank_below_kept:
  fixes R :: "(string \<times> CacheEntry) list"
  assumes "distinct (map fst R)" "d \<in> set R" "r \<in> set R"
    "fst d \<in> set (map fst (take m (sort_key item_rank (map item_of R))))"
    "fst r \<notin> set (map fst (take m (sort_key item_rank (map item_of R))))"
  shows "rank (snd d) \<le> rank (snd r)"
proof -
  let ?S = "sort_key item_rank (map item_of R)"
  have dS: "distinct (map fst ?S)"
    using assms(1) sorted_items(1)[of R] by (metis mset_eq_imp_distinct_iff)
  from assms(4) obtain x where x: "x \<in> set (take m ?S)" "fst x = fst d" by auto
  have "x \<in> set ?S" using x(1) by (meson in_set_takeD)
  moreover have "item_of d \<in> set ?S" using assms(2) by simp
  ultimately have "x = item_of d"
    using dS x(2) by (metis distinct_map inj_onD item_key)
  with x(1) have din: "item_of d \<in> set (take m ?S)" by simp
  have "item_of r \<in> set ?S" using assms(3) by simp
  then have "item_of r \<in> set (take m ?S) \<union> set (drop m ?S)"
    by (metis append_take_drop_id set_append)
  moreover have "item_of r \<notin> set (take m ?S)"
    using assms(5) by (metis image_eqI item_key list.set_map)
  ultimately have rin: "item_of r \<in> set (drop m ?S)" by simp
  have "sorted (map item_rank (take m ?S @ drop m ?S))"
    using sorted_items(3)[of R] by simp
  then have "\<forall>a \<in> set (take m ?S). \<forall>b \<in> set (drop m ?S). item_rank a \<le> item_rank b"
    by (simp add: sorted_append del: append_take_drop_id)
  with din rin have "item_rank (item_of d) \<le> item_rank (item_of r)" by blast
  then show ?thesis by (simp add: item_rank_of)
qed


lemma cacheSuggestion_connected:
  assumes "connected s"
  shows "cacheSuggestion now model input answer s =
     cleanupOldEntries now
       (s\<lparr>store := filter (\<lambda>kv. fst kv \<noteq> entry_key input (new_entry now model input answer)) (store s) @
            [(entry_key input (new_entry now model input answer),
              JSON_stringify (new_entry now model input answer), now + CACHE_TTL * 1000)]\<rparr>)"
  using assms
  by (simp add: cacheSuggestion_def cacheSuggestion_try_def getRedisClient_def redis_setEx_def
      Let_def new_entry_def entry_key_def)

lemma outside_sweep_kept:
  assumes "distinct (map fst (store s))" "kv \<in> set (store s)" "kv \<notin> set (swept now s)"
  shows "fst kv \<notin> set (corrupt_keys (swept now s)) \<and> fst kv \<notin> set (map fst (to_delete now s))"
proof -
  have "fst kv \<notin> fst ` set (swept now s)"
  proof
    assume "fst kv \<in> fst ` set (swept now s)"
    then obtain kv' where k: "kv' \<in> set (swept now s)" "fst kv' = fst kv" by auto
    then have "kv' \<in> set (store s)" using swept_facts(1) by blast
    with assms(1,2) k(2) have "kv' = kv" by (metis distinct_map inj_onD)
    with k(1) assms(3) show False by simp
  qed
  moreover have "set (corrupt_keys (swept now s)) \<subseteq> fst ` set (swept now s)"
    by (auto simp add: corrupt_keys_def)
  moreover have "set (map fst (to_delete now s)) \<subseteq> fst ` set (swept now s)"
  proof -
    have "set (to_delete now s) \<subseteq> item_of ` set (readable now s)"
      using set_take_subset by (fastforce simp add: to_delete_def Let_def)
    then have "fst ` set (to_delete now s) \<subseteq> fst ` item_of ` set (readable now s)"
      by (rule image_mono)
    then have "set (map fst (to_delete now s)) \<subseteq> set (map fst (readable now s))"
      by (simp add: image_image item_key)
    also have "\<dots> \<subseteq> fst ` set (swept now s)"
      by (auto simp add: readable_def readable_keys)
    finally show ?thesis .
  qed
  ultimately show ?thesis by blast
qed

text \<open>
  No key occurs twice in the store: the lookup, the sweep and the write keep it so.
\<close>

lemma lookup_keeps_keys_distinct:
  assumes "distinct (map fst (store s))"
  shows "distinct (map fst (store (snd (getCachedSuggestion now model input s))))"
proof (cases "connected s")
  case False
  then show ?thesis using assms
    by (simp add: getCachedSuggestion_def getCachedSuggestion_try_def getRedisClient_def
        console_error_def)
next
  case True
  then show ?thesis using assms
    by (auto simp add: getCachedSuggestion_connected log_parse_errors_def console_error_def
        distinct_map_filter split: sum.splits option.splits prod.splits)
qed

lemma sweep_keeps_keys_distinct:
  "connected s \<Longrightarrow> distinct (map fst (store s))
   \<Longrightarrow> distinct (map fst (store (cleanupOldEntries now s)))"
  by (simp add: cleanup_connected distinct_map_filter)

lemma write_keeps_keys_distinct:
  assumes "distinct (map fst (store s))"
  shows "distinct (map fst (store (cacheSuggestion now model input answer s)))"
proof (cases "connected s")
  case False
  then show ?thesis using assms
    by (simp add: cacheSuggestion_def cacheSuggestion_try_def getRedisClient_def console_error_def)
next
  case True
  let ?k = "entry_key input (new_entry now model input answer)"
  let ?s1 = "s\<lparr>store := filter (\<lambda>kv. fst kv \<noteq> ?k) (store s) @
            [(?k, JSON_stringify (new_entry now model input answer), now + CACHE_TTL * 1000)]\<rparr>"
  have c1: "connected ?s1" using True by simp
  have d1: "distinct (map fst (store ?s1))"
    using assms by (auto simp add: distinct_map_filter)
  have "distinct (map fst (store (cleanupOldEntries now ?s1)))"
    by (rule sweep_keeps_keys_distinct[OF c1 d1])
  then show ?thesis by (simp only: cacheSuggestion_connected[OF True])
qed


text \<open>
  A write is the \<open>SETEX\<close> of the new entry followed by the sweep. The sweep counts the
  keys that are alive under the cache prefix. If there are at most 1000 it changes nothing.
  If there are more, it deletes every entry it cannot read, leaves all entries outside the
  sweep as they are and adds none. Where at least 900 of the entries can be read, exactly 900
  of them remain, each of rank (hit count, then timestamp) at least the rank of every one
  that was deleted. Where fewer than 900 can be read this lemma is silent: see
  \<open>readable_count_after_cleanup\<close> for the number that remain there.
\<close>

lemma eviction_sweep:
  assumes "connected s" and "distinct (map fst (store s))"
  shows "cacheSuggestion now model input answer s =
           cleanupOldEntries now
             (s\<lparr>store := filter (\<lambda>kv. fst kv \<noteq> entry_key input (new_entry now model input answer)) (store s) @
                  [(entry_key input (new_entry now model input answer),
                    JSON_stringify (new_entry now model input answer), now + CACHE_TTL * 1000)]\<rparr>) \<and>
         (length (swept now s) \<le> 1000 \<longrightarrow> cleanupOldEntries now s = s) \<and>
         (length (swept now s) > 1000 \<and> length (readable now s) \<ge> 900 \<longrightarrow>
            length (readable now (cleanupOldEntries now s)) = 900 \<and>
            set (readable now (cleanupOldEntries now s)) \<subseteq> set (readable now s) \<and>
            (\<forall>d \<in> set (readable now s) - set (readable now (cleanupOldEntries now s)).
               \<forall>r \<in> set (readable now (cleanupOldEntries now s)). rank (snd d) \<le> rank (snd r))) \<and>
         (length (swept now s) > 1000 \<longrightarrow>
            (\<forall>kv \<in> set (swept now s). fst (snd kv) = Unparsable \<longrightarrow>
               kv \<notin> set (store (cleanupOldEntries now s))) \<and>
            (\<forall>kv \<in> set (store s). kv \<notin> set (swept now s) \<longrightarrow>
               kv \<in> set (store (cleanupOldEntries now s))) \<and>
            set (store (cleanupOldEntries now s)) \<subseteq> set (store s))"
proof -
  let ?s' = "cleanupOldEntries now s"
  let ?R = "readable now s"
  let ?m = "slice_index (length ?R) (int (length ?R) - MAX_CACHE_SIZE + 100)"
  have small: "length (swept now s) \<le> 1000 \<longrightarrow> ?s' = s"
    using assms by (simp add: cleanup_connected MAX_CACHE_SIZE_def)
  have big: "length (readable now ?s') = 900 \<and> set (readable now ?s') \<subseteq> set ?R \<and>
            (\<forall>d \<in> set ?R - set (readable now ?s'). \<forall>r \<in> set (readable now ?s').
               rank (snd d) \<le> rank (snd r))"
    if over: "length (swept now s) > 1000" and enough: "length ?R \<ge> 900"
  proof -
    have o: "int (length (swept now s)) > MAX_CACHE_SIZE"
      using over by (simp add: MAX_CACHE_SIZE_def)
    have td: "to_delete now s = take ?m (sort_key item_rank (map item_of ?R))"
      by (simp add: to_delete_def Let_def)
    have R': "readable now ?s' = filter (\<lambda>ke. fst ke \<notin> set (map fst (to_delete now s))) ?R"
      by (rule readable_after_cleanup[OF assms o])
    have m: "?m = length ?R - 900"
      using enough by (simp add: slice_index_def MAX_CACHE_SIZE_def)
    have "length (readable now ?s') = length ?R - ?m"
      by (rule readable_count_after_cleanup[OF assms o])
    then have count: "length (readable now ?s') = 900"
      using m enough by simp
    have sub: "set (readable now ?s') \<subseteq> set ?R"
      using R' by auto
    have ranks: "rank (snd d) \<le> rank (snd r)"
      if "d \<in> set ?R - set (readable now ?s')" "r \<in> set (readable now ?s')" for d r
    proof (rule deleted_rank_below_kept[OF readable_distinct[OF assms(2)], where m = ?m])
      show "d \<in> set ?R" using that(1) by simp
      show "r \<in> set ?R" using that(2) sub by blast
      show "fst d \<in> set (map fst (take ?m (sort_key item_rank (map item_of ?R))))"
        using that(1) R' td by auto
      show "fst r \<notin> set (map fst (take ?m (sort_key item_rank (map item_of ?R))))"
        using that(2) R' td by auto
    qed
    from count sub ranks show ?thesis by blast
  qed
  have sweep: "(\<forall>kv \<in> set (swept now s). fst (snd kv) = Unparsable \<longrightarrow> kv \<notin> set (store ?s')) \<and>
            (\<forall>kv \<in> set (store s). kv \<notin> set (swept now s) \<longrightarrow> kv \<in> set (store ?s')) \<and>
            set (store ?s') \<subseteq> set (store s)"
    if over: "length (swept now s) > 1000"
  proof -
    have st: "store ?s' = filter (\<lambda>kv. fst kv \<notin> set (corrupt_keys (swept now s)) \<and>
                                  fst kv \<notin> set (map fst (to_delete now s))) (store s)"
      using assms over by (simp add: cleanup_connected MAX_CACHE_SIZE_def)
    have a: "\<forall>kv \<in> set (swept now s). fst (snd kv) = Unparsable \<longrightarrow> kv \<notin> set (store ?s')"
      using st by (auto simp add: corrupt_keys_def)
    have b: "\<forall>kv \<in> set (store s). kv \<notin> set (swept now s) \<longrightarrow> kv \<in> set (store ?s')"
      using st outside_sweep_kept[OF assms(2)] by auto
    have c: "set (store ?s') \<subseteq> set (store s)"
      using st by auto
    from a b c show ?thesis by blast
  qed
  from cacheSuggestion_connected[OF assms(1)] small big sweep show ?thesis by blast
qed


lemma glob_match_literal:
  "c \<noteq> CHR ''*'' \<Longrightarrow> c \<noteq> CHR ''?'' \<Longrightarrow> c \<noteq> CHR 0x5C
   \<Longrightarrow> glob_match (c # ps) (c # s) = glob_match ps s"
  by simp

lemma glob_match_example_key: "glob_match (CACHE_PREFIX @ ''*'') (example_key t i)"
  by (simp add: CACHE_PREFIX_def example_key_def glob_match_literal del: glob_match.simps)

lemma example_key_inj: "inj_on (example_key t) A"
proof (rule inj_onI)
  fix i j assume "example_key t i = example_key t j"
  then have "length (example_key t i) = length (example_key t j)" by (rule arg_cong)
  then show "i = j" by (simp add: example_key_def)
qed

lemma example_key_disjoint: "example_key ''_a'' i \<noteq> example_key ''_b'' j"
proof
  assume "example_key ''_a'' i = example_key ''_b'' j"
  then have "last (example_key ''_a'' i) = last (example_key ''_b'' j)" by (rule arg_cong)
  then show False by (simp add: example_key_def)
qed

lemma sweep_example_distinct: "distinct (map fst (store (sweep_example n c)))"
proof -
  have "map fst (store (sweep_example n c)) =
        map (example_key ''_a'') [0..<n] @ map (example_key ''_b'') [0..<c]"
    by (simp add: sweep_example_def o_def)
  moreover have "distinct (map (example_key ''_a'') [0..<n] @ map (example_key ''_b'') [0..<c])"
    using example_key_disjoint by (auto simp add: distinct_map example_key_inj)
  ultimately show ?thesis by simp
qed

lemma sweep_example_swept:
  "now < 1000 \<Longrightarrow> swept now (sweep_example n c) = store (sweep_example n c)"
  by (simp add: swept_def sweep_example_def live_def glob_match_example_key)

lemma sweep_example_readable:
  "now < 1000 \<Longrightarrow> length (readable now (sweep_example n c)) = n"
proof -
  assume "now < 1000"
  then have "readable now (sweep_example n c) = List.map_filter entry_at (store (sweep_example n c))"
    by (simp add: readable_def sweep_example_swept)
  also have "length \<dots> = length (filter (\<lambda>kv. entry_at kv \<noteq> None) (store (sweep_example n c)))"
    by (simp add: List.map_filter_def)
  also have "\<dots> = n"
    by (simp add: sweep_example_def entry_at_def o_def)
  finally show ?thesis .
qed

text \<open>
  C2. When the sweep finds more than 1000 keys it is to delete the entries it cannot read and
  the lowest-ranked readable entries beyond 900. The store below holds 1001 live keys under
  the cache prefix: 800 with an entry that can be read and 201 with a text that cannot.
  Deleting the 201 already brings the store under 900 entries, so no readable entry is
  surplus. The program computes the number of readable entries to delete as the end index
  \<open>800 - 1000 + 100 = -100\<close> of \<open>slice\<close>, which counts a negative index from the end of the
  array: it deletes the 700 lowest-ranked readable entries and leaves 100.
\<close>

theorem sweep_leaves_fewer_than_900:
  "connected (sweep_example 800 201) \<and>
   distinct (map fst (store (sweep_example 800 201))) \<and>
   length (swept 5 (sweep_example 800 201)) = 1001 \<and>
   length (readable 5 (sweep_example 800 201)) = 800 \<and>
   length (readable 5 (cleanupOldEntries 5 (sweep_example 800 201))) = 100"
proof -
  let ?s = "sweep_example 800 201"
  have c: "connected ?s" by (simp add: sweep_example_def)
  have d: "distinct (map fst (store ?s))" by (rule sweep_example_distinct)
  have sw: "length (swept 5 ?s) = 1001"
    by (simp add: sweep_example_swept) (simp add: sweep_example_def)
  have rd: "length (readable 5 ?s) = 800" by (simp add: sweep_example_readable)
  have "int (length (swept 5 ?s)) > MAX_CACHE_SIZE"
    using sw by (simp add: MAX_CACHE_SIZE_def)
  from readable_count_after_cleanup[OF c d this]
  have "length (readable 5 (cleanupOldEntries 5 ?s)) = 100"
    by (simp add: rd slice_index_def MAX_CACHE_SIZE_def)
  with c d sw rd show ?thesis by blast
qed

lemma eviction_sweep_example:
  "connected (sweep_example 950 60) \<and>
   distinct (map fst (store (sweep_example 950 60))) \<and>
   length (swept 5 (sweep_example 950 60)) > 1000 \<and>
   length (readable 5 (sweep_example 950 60)) \<ge> 900 \<and>
   length (readable 5 (cleanupOldEntries 5 (sweep_example 950 60))) = 900 \<and>
   length (swept 5 (sweep_example 3 0)) \<le> 1000 \<and>
   cleanupOldEntries 5 (sweep_example 3 0) = sweep_example 3 0"
proof -
  let ?s = "sweep_example 950 60"
  have c: "connected ?s" by (simp add: sweep_example_def)
  have d: "distinct (map fst (store ?s))" by (rule sweep_example_distinct)
  have sw: "length (swept 5 ?s) > 1000"
    by (simp add: sweep_example_swept) (simp add: sweep_example_def)
  have rd: "length (readable 5 ?s) \<ge> 900" by (simp add: sweep_example_readable)
  have c3: "connected (sweep_example 3 0)" by (simp add: sweep_example_def)
  have d3: "distinct (map fst (store (sweep_example 3 0)))" by (rule sweep_example_distinct)
  have sw3: "length (swept 5 (sweep_example 3 0)) \<le> 1000"
    by (simp add: sweep_example_swept) (simp add: sweep_example_def)
  from eviction_sweep[OF c d, of 5 example_model example_input "''x''"] sw rd
  have big: "length (readable 5 (cleanupOldEntries 5 ?s)) = 900" by blast
  from eviction_sweep[OF c3 d3, of 5 example_model example_input "''x''"] sw3
  have small: "cleanupOldEntries 5 (sweep_example 3 0) = sweep_example 3 0" by blast
  from c d sw rd big sw3 small show ?thesis by blast
qed

text \<open>
  The same count on every store of this shape, and two more of its values: with 899 readable
  entries the end index is -1 and the sweep leaves a single entry; with at most 500 the index
  is clamped at the front of the array and the sweep deletes no readable entry.
\<close>

lemma sweep_example_count:
  assumes "1000 < n + c"
  shows "length (readable 5 (cleanupOldEntries 5 (sweep_example n c))) =
         n - slice_index n (int n - 900)"
proof -
  let ?s = "sweep_example n c"
  have c: "connected ?s" by (simp add: sweep_example_def)
  have d: "distinct (map fst (store ?s))" by (rule sweep_example_distinct)
  have sw: "length (swept 5 ?s) = n + c"
    by (simp add: sweep_example_swept) (simp add: sweep_example_def)
  have rd: "length (readable 5 ?s) = n" by (simp add: sweep_example_readable)
  have "int (length (swept 5 ?s)) > MAX_CACHE_SIZE"
    using sw assms by (simp add: MAX_CACHE_SIZE_def)
  from readable_count_after_cleanup[OF c d this]
  show ?thesis by (simp add: rd MAX_CACHE_SIZE_def)
qed

lemma sweep_example_counts:
  "length (readable 5 (cleanupOldEntries 5 (sweep_example 899 102))) = 1 \<and>
   length (readable 5 (cleanupOldEntries 5 (sweep_example 400 601))) = 400 \<and>
   length (readable 5 (cleanupOldEntries 5 (sweep_example 950 51))) = 900"
  by (simp add: sweep_example_count slice_index_def)


end
